theory Spec2Isabelle
  imports Complex_Main
begin

section \<open>Data model\<close>

text \<open>
  The script \<^verbatim>\<open>CIFAR10_NN.py\<close> wires library calls together. Tensor values are
  modelled over exact numbers: a float tensor with a batch dimension is the list of its
  per-sample rows of \<open>real\<close> scores, an integer tensor is a list of \<open>int\<close>. Rounding
  of the library's floating point arithmetic is outside the model.

  Every exception the script can raise is a value of \<open>error\<close>; a function that can
  raise returns \<open>error + 'a\<close>, with \<open>Inl\<close> for the exception.
\<close>

datatype error =
  ZeroDivisionError | RuntimeError | ValueError | IndexError | TypeError
  | FileNotFoundError | SyntaxError

section \<open>accuracy\<close>

text \<open>
  \<^verbatim>\<open>torch.max(outputs, dim=1)\<close> returns, for each row, the maximal value and the index
  where it occurs; of several maximal entries the first index is returned. The scan
  keeps the best value and its index and replaces them only on a strictly larger entry.
\<close>

fun argmax_from :: "real \<Rightarrow> nat \<Rightarrow> nat \<Rightarrow> real list \<Rightarrow> nat" where
  "argmax_from best bi i [] = bi"
| "argmax_from best bi i (x # xs) =
     (if best < x then argmax_from x i (Suc i) xs else argmax_from best bi (Suc i) xs)"

fun argmax :: "real list \<Rightarrow> nat" where
  "argmax [] = 0"
| "argmax (x # xs) = argmax_from x 0 1 xs"

text \<open>
  \<^verbatim>\<open>torch.sum(preds == labels).item()\<close>: the comparison is elementwise on tensors of
  equal length; a one-element tensor is broadcast against the other; any other pair
  of lengths is rejected by the library.
\<close>

definition count_eq :: "int list \<Rightarrow> int list \<Rightarrow> error + nat" where
  "count_eq preds labels =
     (if length preds = length labels
        then Inr (length (filter (\<lambda>(p, l). p = l) (zip preds labels)))
      else if length labels = 1
        then Inr (length (filter (\<lambda>p. p = hd labels) preds))
      else if length preds = 1
        then Inr (length (filter (\<lambda>l. hd preds = l) labels))
      else Inl RuntimeError)"

text \<open>
  \<^verbatim>\<open>
  def accuracy(outputs, labels):
      _, preds = torch.max(outputs, dim=1)
      return torch.tensor(torch.sum(preds == labels).item() / len(preds))
  \<close>
  The reduction over an empty class dimension is rejected by the library, and the
  division raises on a batch without samples.
\<close>

definition accuracy :: "real list list \<Rightarrow> int list \<Rightarrow> error + real" where
  "accuracy outputs labels =
     (if \<exists>row \<in> set outputs. row = [] then Inl IndexError
      else
        let preds = map (\<lambda>row. int (argmax row)) outputs in
        case count_eq preds labels of
          Inl e \<Rightarrow> Inl e
        | Inr k \<Rightarrow>
            if length preds = 0 then Inl ZeroDivisionError
            else Inr (real k / real (length preds)))"

section \<open>Tensors on devices, batches\<close>

text \<open>
  A tensor carries the device it lives on. \<^verbatim>\<open>to_device\<close> is applied to whatever the
  data loader yields: a tensor, or a list or tuple of such values, nested to any depth.
  \<^verbatim>\<open>
  def to_device(data, device):
      if isinstance(data, (list,tuple)):
          return [to_device(x, device) for x in data]
      return data.to(device, non_blocking=True)
  \<close>
  The comprehension builds a list, also from a tuple.
\<close>

datatype torch_device = CPU | CUDA

datatype tensor = Floats "real list list" | Longs "int list"

datatype data = Tensor torch_device tensor | PyList "data list" | PyTuple "data list"

fun to_device :: "data \<Rightarrow> torch_device \<Rightarrow> data" where
  "to_device (PyList xs) dev = PyList (map (\<lambda>x. to_device x dev) xs)"
| "to_device (PyTuple xs) dev = PyList (map (\<lambda>x. to_device x dev) xs)"
| "to_device (Tensor d v) dev = Tensor dev v"

text \<open>The tensors of a value, left to right, with their devices and without.\<close>

fun devices :: "data \<Rightarrow> torch_device list" where
  "devices (Tensor d v) = [d]"
| "devices (PyList xs) = concat (map devices xs)"
| "devices (PyTuple xs) = concat (map devices xs)"

fun payloads :: "data \<Rightarrow> tensor list" where
  "payloads (Tensor d v) = [v]"
| "payloads (PyList xs) = concat (map payloads xs)"
| "payloads (PyTuple xs) = concat (map payloads xs)"

section \<open>Data loaders\<close>

text \<open>
  A data loader is a library object. Iterating it yields its batches and advances a
  state \<open>'w\<close> of the library (the sampler's random numbers, for a shuffling loader);
  \<^verbatim>\<open>len\<close> gives its number of batches. What the script iterates over is any value with
  an \<^verbatim>\<open>__iter__\<close>: an iteration is the function \<open>'w \<Rightarrow> data list \<times> 'w\<close>.
\<close>

record 'w DataLoader =
  batches :: "'w \<Rightarrow> data list \<times> 'w"
  num_batches :: nat

text \<open>
  \<^verbatim>\<open>
  class DeviceDataLoader():
      def __init__(self, dl, device):
          self.dl = dl
          self.device = device
      def __iter__(self):
          for b in self.dl:
              yield to_device(b, self.device)
      def __len__(self):
          return len(self.dl)
  \<close>
\<close>

record 'w DeviceDataLoader =
  dl :: "'w DataLoader"
  device :: torch_device

definition DeviceDataLoader_iter :: "'w DeviceDataLoader \<Rightarrow> 'w \<Rightarrow> data list \<times> 'w" where
  "DeviceDataLoader_iter self w =
     (case batches (dl self) w of
        (bs, w') \<Rightarrow> (map (\<lambda>b. to_device b (device self)) bs, w'))"

definition DeviceDataLoader_len :: "'w DeviceDataLoader \<Rightarrow> nat" where
  "DeviceDataLoader_len self = num_batches (dl self)"

section \<open>The model and the library it calls\<close>

text \<open>
  \<^verbatim>\<open>CIFARModel\<close> holds three linear layers, each a weight matrix and a bias vector.
\<close>

record layer =
  weight :: "real list list"
  bias :: "real list"

record CIFARModel =
  linear1 :: layer
  linear2 :: layer
  linear3 :: layer

text \<open>
  The numerical routines are the library's and are parameters of the model: the
  reshaping \<^verbatim>\<open>xb.view(xb.size(0), -1)\<close>, the application of a linear layer,
  \<^verbatim>\<open>F.relu\<close>, \<^verbatim>\<open>F.cross_entropy\<close>, the gradient accumulation of \<^verbatim>\<open>loss.backward()\<close>
  (a function of the parameters and the batch the loss was computed from), and the
  optimizer: its constructor \<^verbatim>\<open>opt_func\<close> (an argument of \<^verbatim>\<open>fit\<close> in the source too),
  \<^verbatim>\<open>step\<close> and \<^verbatim>\<open>zero_grad\<close>. \<open>'g\<close> is the accumulated gradient of the parameters,
  \<open>'o\<close> the optimizer's own state. A routine that can reject its arguments returns
  \<open>error + _\<close>.
\<close>

record ('g, 'o) torch =
  view :: "real list list \<Rightarrow> error + real list list"
  linear :: "layer \<Rightarrow> real list list \<Rightarrow> error + real list list"
  relu :: "real list list \<Rightarrow> real list list"
  cross_entropy :: "real list list \<Rightarrow> int list \<Rightarrow> error + real"
  backward :: "CIFARModel \<Rightarrow> data \<Rightarrow> 'g \<Rightarrow> 'g"
  opt_func :: "CIFARModel \<Rightarrow> real \<Rightarrow> error + 'o"
  step :: "'o \<Rightarrow> CIFARModel \<Rightarrow> 'g \<Rightarrow> CIFARModel \<times> 'o"
  zero_grad :: "'o \<Rightarrow> 'g \<Rightarrow> 'g"

text \<open>
  \<^verbatim>\<open>
  def forward(self, xb):
      xb = xb.view(xb.size(0), -1)
      out = self.linear1(xb)
      out = F.relu(out)
      out = self.linear2(out)
      out = F.relu(out)
      out = self.linear3(out)
      return out
  \<close>
\<close>

definition forward ::
  "('g, 'o) torch \<Rightarrow> CIFARModel \<Rightarrow> real list list \<Rightarrow> error + real list list" where
  "forward T self xb =
     (case view T xb of Inl e \<Rightarrow> Inl e | Inr xb \<Rightarrow>
      case linear T (linear1 self) xb of Inl e \<Rightarrow> Inl e | Inr out \<Rightarrow>
      case linear T (linear2 self) (relu T out) of Inl e \<Rightarrow> Inl e | Inr out \<Rightarrow>
      linear T (linear3 self) (relu T out))"

text \<open>
  \<^verbatim>\<open>images, labels = batch\<close>. The loaders of the script yield a list of a float tensor
  (the images) and an integer tensor (the labels). A sequence of another length cannot
  be unpacked into two names; other values are outside what the model follows and are
  reported as a \<open>TypeError\<close>.
\<close>

fun unpack_pair :: "data list \<Rightarrow> error + real list list \<times> int list" where
  "unpack_pair [Tensor d (Floats images), Tensor d' (Longs labels)] = Inr (images, labels)"
| "unpack_pair [x, y] = Inl TypeError"
| "unpack_pair xs = Inl ValueError"

fun unpack :: "data \<Rightarrow> error + real list list \<times> int list" where
  "unpack (PyList xs) = unpack_pair xs"
| "unpack (PyTuple xs) = unpack_pair xs"
| "unpack (Tensor d v) = Inl TypeError"

text \<open>
  \<^verbatim>\<open>
  def training_step(self, batch):
      images, labels = batch
      out = self(images)
      loss = F.cross_entropy(out, labels)
      return loss
  \<close>
\<close>

definition training_step :: "('g, 'o) torch \<Rightarrow> CIFARModel \<Rightarrow> data \<Rightarrow> error + real" where
  "training_step T self batch =
     (case unpack batch of Inl e \<Rightarrow> Inl e | Inr (images, labels) \<Rightarrow>
      case forward T self images of Inl e \<Rightarrow> Inl e | Inr out \<Rightarrow>
      cross_entropy T out labels)"

text \<open>
  \<^verbatim>\<open>
  def validation_step(self, batch):
      images, labels = batch
      out = self(images)
      loss = F.cross_entropy(out, labels)
      acc = accuracy(out, labels)
      return {'val_loss': loss, 'val_acc': acc}
  \<close>
\<close>

record result =
  val_loss :: real
  val_acc :: real

definition validation_step :: "('g, 'o) torch \<Rightarrow> CIFARModel \<Rightarrow> data \<Rightarrow> error + result" where
  "validation_step T self batch =
     (case unpack batch of Inl e \<Rightarrow> Inl e | Inr (images, labels) \<Rightarrow>
      case forward T self images of Inl e \<Rightarrow> Inl e | Inr out \<Rightarrow>
      case cross_entropy T out labels of Inl e \<Rightarrow> Inl e | Inr loss \<Rightarrow>
      case accuracy out labels of Inl e \<Rightarrow> Inl e | Inr acc \<Rightarrow>
      Inr \<lparr>val_loss = loss, val_acc = acc\<rparr>)"

text \<open>
  \<^verbatim>\<open>torch.stack(xs).mean()\<close>: the library refuses to stack an empty list; the mean of
  the stacked scalars is their sum divided by their number.
\<close>

definition stack_mean :: "real list \<Rightarrow> error + real" where
  "stack_mean xs = (if xs = [] then Inl RuntimeError else Inr (sum_list xs / real (length xs)))"

text \<open>
  \<^verbatim>\<open>
  def validation_epoch_end(self, outputs):
      batch_losses = [x['val_loss'] for x in outputs]
      epoch_loss = torch.stack(batch_losses).mean()
      batch_accs = [x['val_acc'] for x in outputs]
      epoch_acc = torch.stack(batch_accs).mean()
      return {'val_loss': epoch_loss.item(), 'val_acc': epoch_acc.item()}
  \<close>
\<close>

definition validation_epoch_end :: "result list \<Rightarrow> error + result" where
  "validation_epoch_end outputs =
     (let batch_losses = map val_loss outputs in
      case stack_mean batch_losses of Inl e \<Rightarrow> Inl e | Inr epoch_loss \<Rightarrow>
      let batch_accs = map val_acc outputs in
      case stack_mean batch_accs of Inl e \<Rightarrow> Inl e | Inr epoch_acc \<Rightarrow>
      Inr \<lparr>val_loss = epoch_loss, val_acc = epoch_acc\<rparr>)"

section \<open>Program state\<close>

text \<open>
  The functions of the script mutate the module passed as \<^verbatim>\<open>model\<close> and consume the
  loaders. The state holds that module's parameters \<open>net\<close> and their accumulated
  gradients \<open>grads\<close>, the library state \<open>world\<close> the loaders draw from, the files
  written by \<^verbatim>\<open>torch.save\<close>, and the sequence \<open>events\<close> of the calls that have effects
  and of the lines printed, in the order they happen. An uncaught exception ends the
  script, so a failing call returns the exception alone.
\<close>

datatype param = Matrix "real list list" | Vector "real list"

datatype event =
    MakeOptimizer real
  | TrainingStep data
  | Backward
  | OptimizerStep
  | ZeroGrad
  | ValidationStep data
  | EpochEnd nat result
  | PrintHistory "result list"
  | PrintResult result

record ('g, 'w) state =
  net :: CIFARModel
  grads :: 'g
  world :: 'w
  events :: "event list"
  files :: "string \<Rightarrow> (string \<times> param) list option"

definition emit :: "event list \<Rightarrow> ('g, 'w) state \<Rightarrow> ('g, 'w) state" where
  "emit es s = s\<lparr>events := events s @ es\<rparr>"

section \<open>evaluate\<close>

text \<open>
  \<^verbatim>\<open>
  def evaluate(model, val_loader):
      outputs = [model.validation_step(batch) for batch in val_loader]
      return model.validation_epoch_end(outputs)
  \<close>
  The comprehension stops at the first batch whose step raises.
\<close>

fun validation_steps :: "('g, 'o) torch \<Rightarrow> CIFARModel \<Rightarrow> data list \<Rightarrow> error + result list" where
  "validation_steps T model [] = Inr []"
| "validation_steps T model (batch # rest) =
     (case validation_step T model batch of Inl e \<Rightarrow> Inl e | Inr r \<Rightarrow>
      case validation_steps T model rest of Inl e \<Rightarrow> Inl e | Inr rs \<Rightarrow> Inr (r # rs))"

definition evaluate ::
  "('g, 'o) torch \<Rightarrow> ('w \<Rightarrow> data list \<times> 'w) \<Rightarrow> ('g, 'w) state
     \<Rightarrow> error + result \<times> ('g, 'w) state" where
  "evaluate T val_loader s =
     (case val_loader (world s) of (bs, w') \<Rightarrow>
      case validation_steps T (net s) bs of Inl e \<Rightarrow> Inl e | Inr outputs \<Rightarrow>
      case validation_epoch_end outputs of Inl e \<Rightarrow> Inl e | Inr r \<Rightarrow>
      Inr (r, emit (map ValidationStep bs) (s\<lparr>world := w'\<rparr>)))"

section \<open>fit\<close>

text \<open>
  \<^verbatim>\<open>
  def fit(epochs, lr, model, train_loader, val_loader, opt_func=torch.optim.SGD):
      history = []
      optimizer = opt_func(model.parameters(), lr)
      for epoch in range(epochs):
          for batch in train_loader:
              loss = model.training_step(batch)
              loss.backward()
              optimizer.step()
              optimizer.zero_grad()
          result = evaluate(model, val_loader)
          model.epoch_end(epoch, result)
          history.append(result)
      return history
  \<close>
  The inner loop, over the batches one iteration of the training loader yields:
\<close>

fun train_batches ::
  "('g, 'o) torch \<Rightarrow> 'o \<Rightarrow> data list \<Rightarrow> ('g, 'w) state \<Rightarrow> error + ('g, 'w) state \<times> 'o" where
  "train_batches T optimizer [] s = Inr (s, optimizer)"
| "train_batches T optimizer (batch # rest) s =
     (case training_step T (net s) batch of Inl e \<Rightarrow> Inl e | Inr loss \<Rightarrow>
      let s1 = emit [TrainingStep batch] s;
          s2 = emit [Backward] (s1\<lparr>grads := backward T (net s1) batch (grads s1)\<rparr>)
      in case step T optimizer (net s2) (grads s2) of (net', optimizer') \<Rightarrow>
      let s3 = emit [OptimizerStep] (s2\<lparr>net := net'\<rparr>);
          s4 = emit [ZeroGrad] (s3\<lparr>grads := zero_grad T optimizer' (grads s3)\<rparr>)
      in train_batches T optimizer' rest s4)"

text \<open>
  \<^verbatim>\<open>
  def epoch_end(self, epoch, result):
      print("Epoch [{}], val_loss: {:.4f}, val_acc: {:.4f}".format(epoch, result['val_loss'], result['val_acc']))
  \<close>
  The printed line is recorded with its arguments; the formatting is the library's.
\<close>

definition epoch_end :: "nat \<Rightarrow> result \<Rightarrow> ('g, 'w) state \<Rightarrow> ('g, 'w) state" where
  "epoch_end epoch r s = emit [EpochEnd epoch r] s"

text \<open>The body of the loop over \<^verbatim>\<open>range(epochs)\<close>, for the epoch numbered \<open>epoch\<close>.\<close>

definition fit_epoch ::
  "('g, 'o) torch \<Rightarrow> 'o \<Rightarrow> ('w \<Rightarrow> data list \<times> 'w) \<Rightarrow> ('w \<Rightarrow> data list \<times> 'w) \<Rightarrow> nat
     \<Rightarrow> ('g, 'w) state \<Rightarrow> error + result \<times> 'o \<times> ('g, 'w) state" where
  "fit_epoch T optimizer train_loader val_loader epoch s =
     (case train_loader (world s) of (bs, w') \<Rightarrow>
      case train_batches T optimizer bs (s\<lparr>world := w'\<rparr>) of Inl e \<Rightarrow> Inl e
      | Inr (s1, optimizer') \<Rightarrow>
      case evaluate T val_loader s1 of Inl e \<Rightarrow> Inl e | Inr (r, s2) \<Rightarrow>
      Inr (r, optimizer', epoch_end epoch r s2))"

text \<open>The loop itself: \<open>n\<close> epochs remain, the next one is numbered \<open>epoch\<close>.\<close>

fun fit_epochs ::
  "('g, 'o) torch \<Rightarrow> 'o \<Rightarrow> ('w \<Rightarrow> data list \<times> 'w) \<Rightarrow> ('w \<Rightarrow> data list \<times> 'w) \<Rightarrow> nat \<Rightarrow> nat
     \<Rightarrow> result list \<Rightarrow> ('g, 'w) state \<Rightarrow> error + result list \<times> ('g, 'w) state" where
  "fit_epochs T optimizer train_loader val_loader epoch 0 history s = Inr (history, s)"
| "fit_epochs T optimizer train_loader val_loader epoch (Suc n) history s =
     (case fit_epoch T optimizer train_loader val_loader epoch s of Inl e \<Rightarrow> Inl e
      | Inr (r, optimizer', s') \<Rightarrow>
      fit_epochs T optimizer' train_loader val_loader (Suc epoch) n (history @ [r]) s')"

text \<open>\<^verbatim>\<open>range(epochs)\<close> is empty for a negative number of epochs.\<close>

definition fit ::
  "('g, 'o) torch \<Rightarrow> int \<Rightarrow> real \<Rightarrow> ('w \<Rightarrow> data list \<times> 'w) \<Rightarrow> ('w \<Rightarrow> data list \<times> 'w)
     \<Rightarrow> ('g, 'w) state \<Rightarrow> error + result list \<times> ('g, 'w) state" where
  "fit T epochs lr train_loader val_loader s =
     (let history = [] in
      case opt_func T (net s) lr of Inl e \<Rightarrow> Inl e | Inr optimizer \<Rightarrow>
      fit_epochs T optimizer train_loader val_loader 0 (nat epochs) history
        (emit [MakeOptimizer lr] s))"

section \<open>The training run\<close>

text \<open>
  \<^verbatim>\<open>
  history = [evaluate(model, val_loader)]
  print(history)
  history += fit(5, 0.5, model, train_loader, val_loader)
  history += fit(25, 0.1, model, train_loader, val_loader)
  history += fit(15, 0.05, model, train_loader, val_loader)
  \<close>
  with both loaders wrapped in a \<^verbatim>\<open>DeviceDataLoader\<close>.
\<close>

definition training_run ::
  "('g, 'o) torch \<Rightarrow> 'w DeviceDataLoader \<Rightarrow> 'w DeviceDataLoader \<Rightarrow> ('g, 'w) state
     \<Rightarrow> error + result list \<times> ('g, 'w) state" where
  "training_run T train_loader val_loader s =
     (case evaluate T (DeviceDataLoader_iter val_loader) s of Inl e \<Rightarrow> Inl e | Inr (r, s0) \<Rightarrow>
      let history = [r]; s0 = emit [PrintHistory history] s0 in
      case fit T 5 0.5 (DeviceDataLoader_iter train_loader) (DeviceDataLoader_iter val_loader) s0
      of Inl e \<Rightarrow> Inl e | Inr (h1, s1) \<Rightarrow>
      let history = history @ h1 in
      case fit T 25 0.1 (DeviceDataLoader_iter train_loader) (DeviceDataLoader_iter val_loader) s1
      of Inl e \<Rightarrow> Inl e | Inr (h2, s2) \<Rightarrow>
      let history = history @ h2 in
      case fit T 15 0.05 (DeviceDataLoader_iter train_loader) (DeviceDataLoader_iter val_loader) s2
      of Inl e \<Rightarrow> Inl e | Inr (h3, s3) \<Rightarrow>
      Inr (history @ h3, s3))"

text \<open>The events of one epoch, as the training loop is described: for each training
  batch in order the loss computation, the gradient propagation, one optimizer step and
  the clearing of the gradients; then the validation pass; then the epoch's report.\<close>

definition batch_events :: "data \<Rightarrow> event list" where
  "batch_events b = [TrainingStep b, Backward, OptimizerStep, ZeroGrad]"

fun fit_events ::
  "('w \<Rightarrow> data list \<times> 'w) \<Rightarrow> ('w \<Rightarrow> data list \<times> 'w) \<Rightarrow> 'w \<Rightarrow> nat \<Rightarrow> result list \<Rightarrow> event list" where
  "fit_events train_loader val_loader w epoch [] = []"
| "fit_events train_loader val_loader w epoch (r # rs) =
     (case train_loader w of (tbs, w1) \<Rightarrow>
      case val_loader w1 of (vbs, w2) \<Rightarrow>
      concat (map batch_events tbs) @ map ValidationStep vbs @ [EpochEnd epoch r]
        @ fit_events train_loader val_loader w2 (Suc epoch) rs)"

section \<open>Checkpoint\<close>

text \<open>
  \<^verbatim>\<open>model.state_dict()\<close> is the ordered dictionary of the parameters under their
  qualified names.
\<close>

definition state_dict :: "CIFARModel \<Rightarrow> (string \<times> param) list" where
  "state_dict self =
     [(''linear1.weight'', Matrix (weight (linear1 self))),
      (''linear1.bias'', Vector (bias (linear1 self))),
      (''linear2.weight'', Matrix (weight (linear2 self))),
      (''linear2.bias'', Vector (bias (linear2 self))),
      (''linear3.weight'', Matrix (weight (linear3 self))),
      (''linear3.bias'', Vector (bias (linear3 self)))]"

text \<open>The shape of a parameter tensor; a matrix is the list of its rows, all of one
  length.\<close>

fun shape :: "param \<Rightarrow> nat list" where
  "shape (Vector v) = [length v]"
| "shape (Matrix rows) = [length rows, (case rows of [] \<Rightarrow> 0 | r # _ \<Rightarrow> length r)]"

fun matrix_of :: "param option \<Rightarrow> real list list" where
  "matrix_of (Some (Matrix w)) = w"
| "matrix_of _ = []"

fun vector_of :: "param option \<Rightarrow> real list" where
  "vector_of (Some (Vector v)) = v"
| "vector_of _ = []"

text \<open>
  \<^verbatim>\<open>model2.load_state_dict(d)\<close>, strict as by default: the library raises on a missing
  or unexpected key and on a tensor whose shape differs from the parameter's; otherwise
  every parameter takes the value stored under its name.
\<close>

definition load_state_dict :: "CIFARModel \<Rightarrow> (string \<times> param) list \<Rightarrow> error + CIFARModel" where
  "load_state_dict self d =
     (let own = state_dict self in
      if set (map fst d) \<noteq> set (map fst own) then Inl RuntimeError
      else if list_ex (\<lambda>(k, v). map_option shape (map_of d k) \<noteq> Some (shape v)) own
        then Inl RuntimeError
      else Inr \<lparr>linear1 = \<lparr>weight = matrix_of (map_of d ''linear1.weight''),
                            bias = vector_of (map_of d ''linear1.bias'')\<rparr>,
                linear2 = \<lparr>weight = matrix_of (map_of d ''linear2.weight''),
                            bias = vector_of (map_of d ''linear2.bias'')\<rparr>,
                linear3 = \<lparr>weight = matrix_of (map_of d ''linear3.weight''),
                            bias = vector_of (map_of d ''linear3.bias'')\<rparr>\<rparr>)"

text \<open>
  \<^verbatim>\<open>torch.save(obj, path)\<close> and \<^verbatim>\<open>torch.load(path)\<close>: the file holds the dictionary; the
  serialization format is the library's.
\<close>

definition torch_save :: "(string \<times> param) list \<Rightarrow> string \<Rightarrow> ('g, 'w) state \<Rightarrow> ('g, 'w) state" where
  "torch_save obj path s = s\<lparr>files := (files s)(path \<mapsto> obj)\<rparr>"

definition torch_load :: "string \<Rightarrow> ('g, 'w) state \<Rightarrow> error + (string \<times> param) list" where
  "torch_load path s = (case files s path of None \<Rightarrow> Inl FileNotFoundError | Some obj \<Rightarrow> Inr obj)"

text \<open>
  \<^verbatim>\<open>
  test_loader = DataLoader(test_dataset, batch_size=256)
  result = evaluate(model, test_loader)
  print(result)
  torch.save(model.state_dict(), 'cifar10-nn-weights.pth')
  model2 = CIFARModel(input_size, hidden_size=hidden_size, out_size=num_classes)
  model2.load_state_dict(torch.load('cifar10-nn-weights.pth'))
  model2.state_dict()
  test_loader = DataLoader(test_dataset, batch_size=256)
  result = evaluate(model2, test_loader)
  print(result)
  \<close>
  The freshly constructed module \<^verbatim>\<open>model2\<close> is given by its initial parameters
  \<open>fresh\<close> and its gradients \<open>fresh_grads\<close>. The function returns both results; in
  the final state \<open>net\<close> and \<open>grads\<close> are those of \<^verbatim>\<open>model2\<close>.
\<close>

definition sanity_check ::
  "('g, 'o) torch \<Rightarrow> 'w DataLoader \<Rightarrow> CIFARModel \<Rightarrow> 'g \<Rightarrow> ('g, 'w) state
     \<Rightarrow> error + (result \<times> result) \<times> ('g, 'w) state" where
  "sanity_check T test_loader fresh fresh_grads s =
     (case evaluate T (batches test_loader) s of Inl e \<Rightarrow> Inl e | Inr (r, s1) \<Rightarrow>
      let s2 = emit [PrintResult r] s1;
          s3 = torch_save (state_dict (net s2)) ''cifar10-nn-weights.pth'' s2
      in case torch_load ''cifar10-nn-weights.pth'' s3 of Inl e \<Rightarrow> Inl e | Inr d \<Rightarrow>
      case load_state_dict fresh d of Inl e \<Rightarrow> Inl e | Inr model2 \<Rightarrow>
      case evaluate T (batches test_loader) (s3\<lparr>net := model2, grads := fresh_grads\<rparr>)
      of Inl e \<Rightarrow> Inl e | Inr (r2, s4) \<Rightarrow>
      Inr ((r, r2), emit [PrintResult r2] s4))"

text \<open>Two modules have the same architecture when their parameters have the same
  shapes.\<close>

definition same_architecture :: "CIFARModel \<Rightarrow> CIFARModel \<Rightarrow> bool" where
  "same_architecture a b = (map (shape \<circ> snd) (state_dict a) = map (shape \<circ> snd) (state_dict b))"

section \<open>Metrics record\<close>

text \<open>
  \<^verbatim>\<open>
  metrics = {
      'val_acc': 0.4151,
      'val_loss': 1.6812,
      'test_acc': 0.4128,
      'test_loss': 1.6940.
  }
  with open('metrics.json', 'w') as fp:
      json.dump(metrics, fp)
  \<close>
  Each entry of the dictionary display is kept as written: the key and the text of the
  value. A decimal literal of the language is a run of digits, or digits with one point
  before, between or after them (exponents and digit separators do not occur here).
\<close>

definition digit :: "char \<Rightarrow> bool" where
  "digit c = (c \<in> set ''0123456789'')"

definition number_literal :: "string \<Rightarrow> bool" where
  "number_literal s =
     (let ip = takeWhile digit s; rest = dropWhile digit s in
      case rest of
        [] \<Rightarrow> ip \<noteq> []
      | c # fp \<Rightarrow> c = CHR ''.'' \<and> list_all digit fp \<and> ip @ fp \<noteq> [])"

definition digits_value :: "string \<Rightarrow> nat" where
  "digits_value ds = foldl (\<lambda>n c. 10 * n + (of_char c - 48)) 0 ds"

definition literal_value :: "string \<Rightarrow> real" where
  "literal_value s =
     (let ip = takeWhile digit s; fp = drop 1 (dropWhile digit s) in
      real (digits_value ip) + real (digits_value fp) / 10 ^ length fp)"

definition metrics_source :: "(string \<times> string) list" where
  "metrics_source =
     [(''val_acc'', ''0.4151''),
      (''val_loss'', ''1.6812''),
      (''test_acc'', ''0.4128''),
      (''test_loss'', ''1.6940.'')]"

text \<open>Reading the dictionary display: a value that is not a literal is a syntax error
  of the file.\<close>

definition read_record :: "(string \<times> string) list \<Rightarrow> error + (string \<times> real) list" where
  "read_record src =
     (if list_all (\<lambda>(k, v). number_literal v) src
      then Inr (map (\<lambda>(k, v). (k, literal_value v)) src)
      else Inl SyntaxError)"

definition metrics :: "error + (string \<times> real) list" where
  "metrics = read_record metrics_source"

text \<open>\<^verbatim>\<open>json.dump(metrics, fp)\<close> into \<^verbatim>\<open>metrics.json\<close>: the JSON object with the
  record's keys and values.\<close>

definition dump_metrics ::
  "(string \<Rightarrow> (string \<times> real) list option) \<Rightarrow> error + (string \<Rightarrow> (string \<times> real) list option)" where
  "dump_metrics fs =
     (case metrics of Inl e \<Rightarrow> Inl e | Inr m \<Rightarrow> Inr (fs(''metrics.json'' \<mapsto> m)))"

section \<open>A small instance of the library\<close>

text \<open>
  To run the model on concrete inputs the library interface is instantiated: a linear
  layer computes \<open>x W\<^sup>T + b\<close>, the loss counts the misclassified samples, the
  accumulated gradient is the number of backward passes, and a step of the optimizer
  moves the bias of the output layer against it.
\<close>

definition small_torch :: "(nat, real) torch" where
  "small_torch =
     \<lparr>view = Inr,
      linear = (\<lambda>L x. Inr (map (\<lambda>row. map2 (\<lambda>w b. sum_list (map2 (*) w row) + b) (weight L) (bias L)) x)),
      relu = map (map (max 0)),
      cross_entropy = (\<lambda>out labels.
         if length out = length labels
         then Inr (real (length (filter (\<lambda>(row, l). int (argmax row) \<noteq> l) (zip out labels))))
         else Inl ValueError),
      backward = (\<lambda>m b g. Suc g),
      opt_func = (\<lambda>m lr. if lr < 0 then Inl ValueError else Inr lr),
      step = (\<lambda>lr m g. (m\<lparr>linear3 := (linear3 m)\<lparr>bias := map (\<lambda>b. b - lr * real g) (bias (linear3 m))\<rparr>\<rparr>, lr)),
      zero_grad = (\<lambda>lr g. 0)\<rparr>"

text \<open>
  A module with one input feature, one hidden unit per layer and two classes; it scores
  a non-negative input \<open>x\<close> as \<open>[x, - x]\<close> and so predicts class 0. A training loader
  with one batch, and a validation loader with a batch of one sample that is classified
  correctly and a batch of three samples that are not.
\<close>

definition small_model :: CIFARModel where
  "small_model =
     \<lparr>linear1 = \<lparr>weight = [[1]], bias = [0]\<rparr>,
      linear2 = \<lparr>weight = [[1]], bias = [0]\<rparr>,
      linear3 = \<lparr>weight = [[1], [- 1]], bias = [0, 0]\<rparr>\<rparr>"

definition small_state :: "(nat, unit) state" where
  "small_state = \<lparr>net = small_model, grads = 0, world = (), events = [], files = Map.empty\<rparr>"

definition batch_a :: data where
  "batch_a = PyList [Tensor CPU (Floats [[1]]), Tensor CPU (Longs [0])]"

definition batch_b :: data where
  "batch_b = PyList [Tensor CPU (Floats [[1], [2], [3]]), Tensor CPU (Longs [1, 1, 1])]"

definition small_train :: "unit DataLoader" where
  "small_train = \<lparr>batches = (\<lambda>w. ([batch_a], w)), num_batches = 1\<rparr>"

definition small_val :: "unit DataLoader" where
  "small_val = \<lparr>batches = (\<lambda>w. ([batch_a, batch_b], w)), num_batches = 2\<rparr>"

text \<open>A module of the same architecture with other parameter values.\<close>

definition blank_model :: CIFARModel where
  "blank_model =
     \<lparr>linear1 = \<lparr>weight = [[0]], bias = [0]\<rparr>,
      linear2 = \<lparr>weight = [[0]], bias = [0]\<rparr>,
      linear3 = \<lparr>weight = [[0], [0]], bias = [5, 5]\<rparr>\<rparr>"

section \<open>The training phase as described\<close>






section \<open>The start of the script\<close>

text \<open>
  The library routines that draw from the global random number generator, or build the
  objects of the script: \<^verbatim>\<open>torch.manual_seed\<close>, \<^verbatim>\<open>random_split\<close>, \<^verbatim>\<open>len\<close> of a
  dataset, the constructor of a \<^verbatim>\<open>DataLoader\<close> (dataset, batch size, shuffle) and the
  constructor of the module, which initializes the three layers from the generator and
  returns the parameters with their (empty) gradients. The state \<open>'w\<close> that the
  loaders draw from is the state of this generator.
\<close>

record ('ds, 'g, 'w) torch_random =
  manual_seed :: "int \<Rightarrow> 'w \<Rightarrow> 'w"
  random_split :: "'ds \<Rightarrow> int list \<Rightarrow> 'w \<Rightarrow> error + 'ds list \<times> 'w"
  dataset_len :: "'ds \<Rightarrow> nat"
  DataLoader_new :: "'ds \<Rightarrow> nat \<Rightarrow> bool \<Rightarrow> 'w DataLoader"
  CIFARModel_new :: "nat \<Rightarrow> nat \<Rightarrow> nat \<Rightarrow> 'w \<Rightarrow> (CIFARModel \<times> 'g) \<times> 'w"

text \<open>
  \<^verbatim>\<open>
  def get_default_device():
      if torch.cuda.is_available():
          return torch.device('cuda')
      else:
          return torch.device('cpu')
  \<close>
\<close>

definition get_default_device :: "bool \<Rightarrow> torch_device" where
  "get_default_device cuda_is_available = (if cuda_is_available then CUDA else CPU)"

text \<open>
  The script up to the first evaluation:
  \<^verbatim>\<open>
  torch.manual_seed(42)
  val_size = 10000
  train_size = len(dataset) - val_size
  train_ds, val_ds = random_split(dataset, [train_size, val_size])
  batch_size=64
  train_loader = DataLoader(train_ds, batch_size, shuffle=True, num_workers=4, pin_memory=True)
  val_loader = DataLoader(val_ds, batch_size*2, num_workers=4, pin_memory=True)
  model = CIFARModel(input_size, hidden_size=hidden_size, out_size=num_classes)
  device = get_default_device()
  train_loader = DeviceDataLoader(train_loader, device)
  val_loader = DeviceDataLoader(val_loader, device)
  model = CIFARModel(input_size, hidden_size=hidden_size, out_size=num_classes)
  \<close>
  with \<open>input_size = 1024\<close>, \<open>hidden_size = 128\<close> and \<open>num_classes = 10\<close>. It starts
  with the generator in some state \<open>w0\<close> and some files \<open>fs\<close>, and gives the two wrapped
  loaders and the state with the module constructed last. The module constructed first
  is dropped, its draws from the generator are not.
\<close>

definition script_start ::
  "('ds, 'g, 'w) torch_random \<Rightarrow> bool \<Rightarrow> 'ds \<Rightarrow> (string \<Rightarrow> (string \<times> param) list option) \<Rightarrow> 'w
     \<Rightarrow> error + 'w DeviceDataLoader \<times> 'w DeviceDataLoader \<times> ('g, 'w) state" where
  "script_start R cuda_is_available dataset fs w0 =
     (let w1 = manual_seed R 42 w0;
          val_size = 10000;
          train_size = int (dataset_len R dataset) - val_size
      in case random_split R dataset [train_size, val_size] w1 of Inl e \<Rightarrow> Inl e
      | Inr (parts, w2) \<Rightarrow>
        (case parts of
           [train_ds, val_ds] \<Rightarrow>
             (let batch_size = 64;
                  train_loader = DataLoader_new R train_ds batch_size True;
                  val_loader = DataLoader_new R val_ds (batch_size * 2) False
              in case CIFARModel_new R 1024 128 10 w2 of (first_model, w3) \<Rightarrow>
                 let device = get_default_device cuda_is_available;
                     train_loader = \<lparr>dl = train_loader, device = device\<rparr>;
                     val_loader = \<lparr>dl = val_loader, device = device\<rparr>
                 in case CIFARModel_new R 1024 128 10 w3 of ((model, g), w4) \<Rightarrow>
                    Inr (train_loader, val_loader,
                         \<lparr>net = model, grads = g, world = w4, events = [], files = fs\<rparr>))
         | _ \<Rightarrow> Inl ValueError))"

text \<open>The outcome of \<^verbatim>\<open>evaluate(model, val_loader)\<close> at the start of the training run:
  the result of the baseline evaluation, or the exception that ends the script.\<close>

definition baseline ::
  "('g, 'o) torch \<Rightarrow> ('ds, 'g, 'w) torch_random \<Rightarrow> bool \<Rightarrow> 'ds
     \<Rightarrow> (string \<Rightarrow> (string \<times> param) list option) \<Rightarrow> 'w \<Rightarrow> error + result" where
  "baseline T R cuda_is_available dataset fs w0 =
     (case script_start R cuda_is_available dataset fs w0 of Inl e \<Rightarrow> Inl e
      | Inr (train_loader, val_loader, s) \<Rightarrow>
          map_sum id fst (evaluate T (DeviceDataLoader_iter val_loader) s))"

text \<open>
  A small instance of these routines: the generator state is a number, seeding sets it
  to the seed, every draw advances it, and the module's output bias is initialized from
  it. The dataset is the list of its batches; the split gives the first batch to the
  training part and the others to the validation part.
\<close>

definition small_random :: "(data list, nat, nat) torch_random" where
  "small_random =
     \<lparr>manual_seed = (\<lambda>seed w. nat seed),
      random_split = (\<lambda>ds lengths w. Inr ([take 1 ds, drop 1 ds], Suc w)),
      dataset_len = length,
      DataLoader_new = (\<lambda>ds batch_size shuffle.
         \<lparr>batches = (\<lambda>w. (ds, if shuffle then Suc w else w)), num_batches = length ds\<rparr>),
      CIFARModel_new = (\<lambda>i h c w.
         ((small_model\<lparr>linear3 := \<lparr>weight = [[1], [- 1]], bias = [real w, real w]\<rparr>\<rparr>, 0), Suc w))\<rparr>"

section \<open>Properties of accuracy\<close>

lemma argmax_from_bounds:
  "bi < i \<Longrightarrow> argmax_from best bi i xs < i + length xs"
proof (induction xs arbitrary: best bi i)
  case Nil
  then show ?case by simp
next
  case (Cons x xs)
  have new: "argmax_from x i (Suc i) xs < Suc i + length xs"
    by (rule Cons.IH) simp
  have old: "argmax_from best bi (Suc i) xs < Suc i + length xs"
    by (rule Cons.IH) (use Cons.prems in simp)
  show ?case using new old by simp
qed

lemma argmax_from_spec:
  assumes "bi < i" and "ys ! bi = best" and "length ys = i"
    and "\<forall>j < i. ys ! j \<le> best" and "\<forall>j < bi. ys ! j < best"
  shows "(\<forall>j < i + length xs. (ys @ xs) ! j \<le> (ys @ xs) ! argmax_from best bi i xs)
       \<and> (\<forall>j < argmax_from best bi i xs. (ys @ xs) ! j < (ys @ xs) ! argmax_from best bi i xs)"
  using assms
proof (induction xs arbitrary: best bi i ys)
  case Nil
  then show ?case by simp
next
  case (Cons x xs)
  let ?ys = "ys @ [x]"
  have len: "length ?ys = Suc i" using Cons.prems by simp
  have app: "ys @ x # xs = ?ys @ xs" by simp
  show ?case
  proof (cases "best < x")
    case True
    have a: "i < Suc i" by simp
    have b: "?ys ! i = x" using Cons.prems(3) by (simp add: nth_append)
    have c: "\<forall>j < Suc i. ?ys ! j \<le> x"
      using Cons.prems(3,4) True by (auto simp: nth_append less_Suc_eq)
    have d: "\<forall>j < i. ?ys ! j < x"
      using Cons.prems(3,4) True by (auto simp: nth_append)
    from Cons.IH [OF a b len c d] True show ?thesis
      unfolding app by simp
  next
    case False
    have a: "bi < Suc i" using Cons.prems(1) by simp
    have b: "?ys ! bi = best" using Cons.prems(1,2,3) by (simp add: nth_append)
    have c: "\<forall>j < Suc i. ?ys ! j \<le> best"
      using Cons.prems(3,4) False by (auto simp: nth_append less_Suc_eq)
    have d: "\<forall>j < bi. ?ys ! j < best"
      using Cons.prems(1,3,5) by (auto simp: nth_append)
    from Cons.IH [OF a b len c d] False show ?thesis
      unfolding app by simp
  qed
qed

text \<open>The index returned for a non-empty row is in range, points at a maximal entry,
  and is the first such index.\<close>

lemma argmax_first_max:
  assumes "row \<noteq> []"
  shows "argmax row < length row"
    and "\<forall>j < length row. row ! j \<le> row ! argmax row"
    and "\<forall>j < argmax row. row ! j < row ! argmax row"
proof -
  from assms obtain x xs where row: "row = x # xs" by (cases row) auto
  show "argmax row < length row"
    using argmax_from_bounds [of 0 1 x xs] by (simp add: row)
  have "(\<forall>j < 1 + length xs. ([x] @ xs) ! j \<le> ([x] @ xs) ! argmax_from x 0 1 xs)
      \<and> (\<forall>j < argmax_from x 0 1 xs. ([x] @ xs) ! j < ([x] @ xs) ! argmax_from x 0 1 xs)"
    by (rule argmax_from_spec) simp_all
  then show "\<forall>j < length row. row ! j \<le> row ! argmax row"
    and "\<forall>j < argmax row. row ! j < row ! argmax row"
    by (simp_all add: row)
qed

lemma count_zip_filter:
  "length xs = length ys \<Longrightarrow>
   length (filter (\<lambda>(p, l). p = l) (zip xs ys)) = card {i. i < length xs \<and> xs ! i = ys ! i}"
proof (induction xs ys rule: list_induct2)
  case Nil
  then show ?case by simp
next
  case (Cons x xs y ys)
  let ?S = "{i. i < length xs \<and> xs ! i = ys ! i}"
  let ?T = "{i. i < length (x # xs) \<and> (x # xs) ! i = (y # ys) ! i}"
  have fin: "finite ?S" by simp
  have inj: "inj_on Suc ?S" by simp
  have T: "?T = (if x = y then {0} else {}) \<union> Suc ` ?S"
  proof (rule set_eqI)
    fix i show "i \<in> ?T \<longleftrightarrow> i \<in> (if x = y then {0} else {}) \<union> Suc ` ?S"
      by (cases i) auto
  qed
  have disj: "(if x = y then {0} else {}) \<inter> Suc ` ?S = {}" by auto
  have "card ?T = card (if x = y then {0::nat} else {}) + card (Suc ` ?S)"
    unfolding T by (rule card_Un_disjoint) (use disj in auto)
  also have "card (Suc ` ?S) = card ?S" by (rule card_image [OF inj])
  finally show ?case using Cons.IH by simp
qed

lemma accuracy_value:
  assumes "outputs \<noteq> []" and "length outputs = length labels" and "[] \<notin> set outputs"
  shows "accuracy outputs labels =
        Inr (real (card {i. i < length outputs \<and> int (argmax (outputs ! i)) = labels ! i})
             / real (length outputs))"
proof -
  let ?preds = "map (\<lambda>row. int (argmax row)) outputs"
  let ?S = "{i. i < length outputs \<and> int (argmax (outputs ! i)) = labels ! i}"
  have len: "length ?preds = length labels" using assms(2) by simp
  have S: "{i. i < length ?preds \<and> ?preds ! i = labels ! i} = ?S"
    by auto
  have cnt: "count_eq ?preds labels = Inr (card ?S)"
    using count_zip_filter [OF len] len unfolding S by (simp add: count_eq_def)
  have norow: "\<not> (\<exists>row \<in> set outputs. row = [])" using assms(3) by auto
  have ne: "labels \<noteq> []" using assms(1,2) by (cases labels) auto
  show ?thesis
    using assms(2) cnt norow ne by (simp add: accuracy_def Let_def)
qed

lemma accuracy_returns:
  assumes "outputs \<noteq> []" "length outputs = length labels" "[] \<notin> set outputs"
  shows "\<exists>a. accuracy outputs labels = Inr a"
  using accuracy_value [OF assms] by blast

section \<open>Properties of the validation pass\<close>

lemma emit_simps:
  "net (emit es s) = net s" "grads (emit es s) = grads s" "world (emit es s) = world s"
  "files (emit es s) = files s" "events (emit es s) = events s @ es"
  by (simp_all add: emit_def)

lemma validation_steps_nth:
  "validation_steps T m bs = Inr rs \<Longrightarrow>
     length rs = length bs \<and> (\<forall>i < length bs. validation_step T m (bs ! i) = Inr (rs ! i))"
proof (induction bs arbitrary: rs)
  case Nil
  then show ?case by simp
next
  case (Cons b bs)
  from Cons.prems obtain r rs' where r: "validation_step T m b = Inr r"
    and rs': "validation_steps T m bs = Inr rs'" and rs: "rs = r # rs'"
    by (auto split: sum.splits)
  from Cons.IH [OF rs'] have len: "length rs' = length bs"
    and nth: "\<forall>i < length bs. validation_step T m (bs ! i) = Inr (rs' ! i)" by simp_all
  show ?case
  proof (intro conjI allI impI)
    show "length rs = length (b # bs)" using len rs by simp
  next
    fix i assume "i < length (b # bs)"
    then show "validation_step T m ((b # bs) ! i) = Inr (rs ! i)"
      using r nth rs by (cases i) simp_all
  qed
qed

lemma evaluate_Inr:
  assumes "evaluate T val_loader s = Inr (r, s')"
  shows "\<exists>outputs. validation_steps T (net s) (fst (val_loader (world s))) = Inr outputs
           \<and> validation_epoch_end outputs = Inr r
           \<and> s' = emit (map ValidationStep (fst (val_loader (world s))))
                    (s\<lparr>world := snd (val_loader (world s))\<rparr>)"
  using assms
  by (auto simp: evaluate_def split: prod.splits sum.splits)

text \<open>What a returning call of \<open>evaluate\<close> changes: the library state the loader drew
  from, and the recorded events.\<close>

lemma evaluate_frame:
  assumes "evaluate T val_loader s = Inr (r, s')"
  shows "net s' = net s" "grads s' = grads s" "files s' = files s"
    "world s' = snd (val_loader (world s))"
    "events s' = events s @ map ValidationStep (fst (val_loader (world s)))"
  using evaluate_Inr [OF assms] by (auto simp: emit_simps)

lemma sum_list_sum_nth': "sum_list xs = (\<Sum>i<length xs. xs ! i)"
  by (simp add: sum_list_sum_nth atLeast0LessThan)

lemma validation_epoch_end_mean:
  "outputs \<noteq> [] \<Longrightarrow>
   validation_epoch_end outputs =
     Inr \<lparr>val_loss = (\<Sum>i<length outputs. val_loss (outputs ! i)) / real (length outputs),
          val_acc = (\<Sum>i<length outputs. val_acc (outputs ! i)) / real (length outputs)\<rparr>"
proof -
  assume ne: "outputs \<noteq> []"
  have a: "sum_list (map val_loss outputs) = (\<Sum>i<length outputs. val_loss (outputs ! i))"
    using sum_list_sum_nth' [of "map val_loss outputs"] by simp
  have b: "sum_list (map val_acc outputs) = (\<Sum>i<length outputs. val_acc (outputs ! i))"
    using sum_list_sum_nth' [of "map val_acc outputs"] by simp
  show ?thesis using ne a b
    by (simp add: validation_epoch_end_def stack_mean_def)
qed

section \<open>Properties of the training loop\<close>


lemma train_batches_frame:
  "train_batches T opt bs s = Inr (s', opt') \<Longrightarrow>
     events s' = events s @ concat (map batch_events bs) \<and> world s' = world s \<and> files s' = files s"
proof (induction bs arbitrary: opt s)
  case Nil
  then show ?case by simp
next
  case (Cons b bs)
  from Cons.prems obtain loss where "training_step T (net s) b = Inr loss"
    by (auto split: sum.splits)
  with Cons.prems obtain s4 opt1 where
    rec: "train_batches T opt1 bs s4 = Inr (s', opt')"
    and ev: "events s4 = events s @ batch_events b"
    and w: "world s4 = world s" and f: "files s4 = files s"
    by (auto simp: Let_def emit_simps batch_events_def split: prod.splits)
  from Cons.IH [OF rec] ev w f show ?case by simp
qed

lemma fit_epoch_frame:
  assumes "fit_epoch T opt trn vl epoch s = Inr (r, opt', s')"
  shows "events s' = events s @ concat (map batch_events (fst (trn (world s))))
           @ map ValidationStep (fst (vl (snd (trn (world s))))) @ [EpochEnd epoch r]"
    and "world s' = snd (vl (snd (trn (world s))))"
    and "files s' = files s"
proof -
  obtain tbs w1 where trnw: "trn (world s) = (tbs, w1)" by (cases "trn (world s)")
  from assms trnw obtain s1 s2 where
    tr: "train_batches T opt tbs (s\<lparr>world := w1\<rparr>) = Inr (s1, opt')"
    and ev: "evaluate T vl s1 = Inr (r, s2)"
    and s': "s' = epoch_end epoch r s2"
    by (auto simp: fit_epoch_def split: sum.splits prod.splits)
  from train_batches_frame [OF tr]
  have a: "events s1 = events s @ concat (map batch_events tbs)" and b: "world s1 = w1"
    and c: "files s1 = files s" by simp_all
  from evaluate_frame [OF ev] a b c s' trnw
  show "events s' = events s @ concat (map batch_events (fst (trn (world s))))
           @ map ValidationStep (fst (vl (snd (trn (world s))))) @ [EpochEnd epoch r]"
    and "world s' = snd (vl (snd (trn (world s))))"
    and "files s' = files s"
    by (simp_all add: epoch_end_def emit_simps)
qed

lemma fit_epochs_trace:
  "fit_epochs T opt trn vl epoch n hist s = Inr (history, s') \<Longrightarrow>
     \<exists>new. history = hist @ new \<and> length new = n
          \<and> events s' = events s @ fit_events trn vl (world s) epoch new
          \<and> files s' = files s"
proof (induction n arbitrary: opt epoch hist s)
  case 0
  then show ?case by simp
next
  case (Suc n)
  from Suc.prems obtain r opt1 s1 where
    ep: "fit_epoch T opt trn vl epoch s = Inr (r, opt1, s1)"
    and rec: "fit_epochs T opt1 trn vl (Suc epoch) n (hist @ [r]) s1 = Inr (history, s')"
    by (auto split: sum.splits)
  from Suc.IH [OF rec] obtain new where
    h: "history = (hist @ [r]) @ new" and len: "length new = n"
    and ev: "events s' = events s1 @ fit_events trn vl (world s1) (Suc epoch) new"
    and f: "files s' = files s1"
    by blast
  have "events s' = events s @ fit_events trn vl (world s) epoch (r # new)"
    using ev fit_epoch_frame(1,2) [OF ep] by (simp split: prod.splits)
  then show ?case using h len f fit_epoch_frame(3) [OF ep]
    by (intro exI [of _ "r # new"]) simp
qed

lemma fit_Inr:
  assumes "fit T epochs lr trn val s = Inr (history, s')"
  shows "\<exists>optimizer. opt_func T (net s) lr = Inr optimizer
           \<and> fit_epochs T optimizer trn val 0 (nat epochs) [] (emit [MakeOptimizer lr] s)
               = Inr (history, s')"
  using assms by (auto simp: fit_def split: sum.splits)

lemma fit_trace:
  assumes "fit T epochs lr trn val s = Inr (history, s')"
  shows "length history = nat epochs"
    and "events s' = events s @ [MakeOptimizer lr] @ fit_events trn val (world s) 0 history"
    and "files s' = files s"
proof -
  from fit_Inr [OF assms] obtain opt where
    run: "fit_epochs T opt trn val 0 (nat epochs) [] (emit [MakeOptimizer lr] s) = Inr (history, s')"
    by blast
  from fit_epochs_trace [OF run]
  show "length history = nat epochs"
    and "events s' = events s @ [MakeOptimizer lr] @ fit_events trn val (world s) 0 history"
    and "files s' = files s"
    by (auto simp: emit_simps)
qed




text \<open>
  The loop returns when the library accepts every batch. The parameters change from
  step to step, so this is stated with an invariant \<open>I\<close> of the parameters that the
  optimizer's step keeps and under which every training step and every validation pass
  succeeds.
\<close>

lemma train_batches_returns:
  assumes step_inv: "\<And>m opt g. I m \<Longrightarrow> I (fst (step T opt m g))"
    and ok: "\<And>m b. I m \<Longrightarrow> b \<in> set bs \<Longrightarrow> \<exists>l. training_step T m b = Inr l"
    and inv: "I (net s)"
  shows "\<exists>s' opt'. train_batches T opt bs s = Inr (s', opt') \<and> I (net s')"
  using ok inv
proof (induction bs arbitrary: opt s)
  case Nil
  then show ?case by simp
next
  case (Cons b bs)
  from Cons.prems(1) [OF Cons.prems(2), of b] obtain l where
    l: "training_step T (net s) b = Inr l" by auto
  let ?g = "backward T (net s) b (grads s)"
  obtain net' opt1 where st: "step T opt (net s) ?g = (net', opt1)"
    by (cases "step T opt (net s) ?g")
  have inv': "I net'" using step_inv [OF Cons.prems(2), of opt ?g] st by simp
  let ?s4 = "emit [ZeroGrad] (emit [OptimizerStep]
      (emit [Backward] (emit [TrainingStep b] s\<lparr>grads := ?g\<rparr>) \<lparr>net := net'\<rparr>)
      \<lparr>grads := zero_grad T opt1 ?g\<rparr>)"
  have unfold: "train_batches T opt (b # bs) s = train_batches T opt1 bs ?s4"
    using l st by (simp add: Let_def emit_def)
  have "\<exists>s' opt'. train_batches T opt1 bs ?s4 = Inr (s', opt') \<and> I (net s')"
  proof (rule Cons.IH)
    show "\<And>m b. I m \<Longrightarrow> b \<in> set bs \<Longrightarrow> \<exists>l. training_step T m b = Inr l"
      using Cons.prems(1) by simp
    show "I (net ?s4)" using inv' by (simp add: emit_def)
  qed
  then show ?case unfolding unfold .
qed

lemma fit_epoch_returns:
  assumes step_inv: "\<And>m opt g. I m \<Longrightarrow> I (fst (step T opt m g))"
    and train_ok: "\<And>m w b. I m \<Longrightarrow> b \<in> set (fst (trn w)) \<Longrightarrow> \<exists>l. training_step T m b = Inr l"
    and val_ok: "\<And>m w. I m \<Longrightarrow>
          \<exists>outs r. validation_steps T m (fst (val w)) = Inr outs \<and> validation_epoch_end outs = Inr r"
    and inv: "I (net s)"
  shows "\<exists>r opt' s'. fit_epoch T opt trn val epoch s = Inr (r, opt', s') \<and> I (net s')"
proof -
  obtain tbs w1 where tw: "trn (world s) = (tbs, w1)" by (cases "trn (world s)")
  have "\<exists>s1 opt'. train_batches T opt tbs (s\<lparr>world := w1\<rparr>) = Inr (s1, opt') \<and> I (net s1)"
  proof (rule train_batches_returns [where I = I])
    show "\<And>m opt g. I m \<Longrightarrow> I (fst (step T opt m g))" by (rule step_inv)
    show "\<And>m b. I m \<Longrightarrow> b \<in> set tbs \<Longrightarrow> \<exists>l. training_step T m b = Inr l"
      using train_ok [of _ _ "world s"] tw by simp
    show "I (net (s\<lparr>world := w1\<rparr>))" using inv by simp
  qed
  then obtain s1 opt' where tr: "train_batches T opt tbs (s\<lparr>world := w1\<rparr>) = Inr (s1, opt')"
    and inv1: "I (net s1)" by blast
  obtain vbs w2 where vw: "val (world s1) = (vbs, w2)" by (cases "val (world s1)")
  from val_ok [OF inv1, of "world s1"] vw obtain outs r where
    vs: "validation_steps T (net s1) vbs = Inr outs" and ve: "validation_epoch_end outs = Inr r"
    by auto
  have ev: "evaluate T val s1 = Inr (r, emit (map ValidationStep vbs) (s1\<lparr>world := w2\<rparr>))"
    using vw vs ve by (simp add: evaluate_def)
  show ?thesis
    using tw tr ev inv1 by (simp add: fit_epoch_def epoch_end_def emit_def)
qed

lemma fit_epochs_returns:
  assumes step_inv: "\<And>m opt g. I m \<Longrightarrow> I (fst (step T opt m g))"
    and train_ok: "\<And>m w b. I m \<Longrightarrow> b \<in> set (fst (trn w)) \<Longrightarrow> \<exists>l. training_step T m b = Inr l"
    and val_ok: "\<And>m w. I m \<Longrightarrow>
          \<exists>outs r. validation_steps T m (fst (val w)) = Inr outs \<and> validation_epoch_end outs = Inr r"
    and inv: "I (net s)"
  shows "\<exists>history s'. fit_epochs T opt trn val epoch n hist s = Inr (history, s') \<and> I (net s')"
  using inv
proof (induction n arbitrary: opt epoch hist s)
  case 0
  then show ?case by simp
next
  case (Suc n)
  have "\<exists>r opt' s1. fit_epoch T opt trn val epoch s = Inr (r, opt', s1) \<and> I (net s1)"
  proof (rule fit_epoch_returns [where I = I])
    show "\<And>m opt g. I m \<Longrightarrow> I (fst (step T opt m g))" by (rule step_inv)
    show "\<And>m w b. I m \<Longrightarrow> b \<in> set (fst (trn w)) \<Longrightarrow> \<exists>l. training_step T m b = Inr l"
      by (rule train_ok)
    show "\<And>m w. I m \<Longrightarrow>
          \<exists>outs r. validation_steps T m (fst (val w)) = Inr outs \<and> validation_epoch_end outs = Inr r"
      by (rule val_ok)
    show "I (net s)" by (rule Suc.prems)
  qed
  then obtain r opt' s1 where ep: "fit_epoch T opt trn val epoch s = Inr (r, opt', s1)"
    and inv1: "I (net s1)" by blast
  from Suc.IH [OF inv1, where opt = opt' and epoch = "Suc epoch" and hist = "hist @ [r]"] ep
  show ?case by simp
qed

lemma fit_returns:
  assumes step_inv: "\<And>m opt g. I m \<Longrightarrow> I (fst (step T opt m g))"
    and train_ok: "\<And>m w b. I m \<Longrightarrow> b \<in> set (fst (trn w)) \<Longrightarrow> \<exists>l. training_step T m b = Inr l"
    and val_ok: "\<And>m w. I m \<Longrightarrow>
          \<exists>outs r. validation_steps T m (fst (val w)) = Inr outs \<and> validation_epoch_end outs = Inr r"
    and inv: "I (net s)"
    and opt: "opt_func T (net s) lr = Inr optimizer"
  shows "\<exists>history s'. fit T epochs lr trn val s = Inr (history, s') \<and> I (net s')"
proof -
  have "\<exists>history s'. fit_epochs T optimizer trn val 0 (nat epochs) []
            (emit [MakeOptimizer lr] s) = Inr (history, s') \<and> I (net s')"
  proof (rule fit_epochs_returns [where I = I])
    show "\<And>m opt g. I m \<Longrightarrow> I (fst (step T opt m g))" by (rule step_inv)
    show "\<And>m w b. I m \<Longrightarrow> b \<in> set (fst (trn w)) \<Longrightarrow> \<exists>l. training_step T m b = Inr l"
      by (rule train_ok)
    show "\<And>m w. I m \<Longrightarrow>
          \<exists>outs r. validation_steps T m (fst (val w)) = Inr outs \<and> validation_epoch_end outs = Inr r"
      by (rule val_ok)
    show "I (net (emit [MakeOptimizer lr] s))" using inv by (simp add: emit_def)
  qed
  then show ?thesis using opt by (simp add: fit_def)
qed

section \<open>Properties of the device wrapper and the checkpoint\<close>

text \<open>Moving a value keeps its tensors and puts each of them on the device.\<close>

lemma to_device_moves:
  "payloads (to_device b dev) = payloads b
   \<and> devices (to_device b dev) = replicate (length (payloads b)) dev"
proof (induction b)
  case (Tensor d v)
  show ?case by simp
next
  case (PyList xs)
  then show ?case
    by (induction xs) (simp_all add: replicate_add)
next
  case (PyTuple xs)
  then show ?case
    by (induction xs) (simp_all add: replicate_add)
qed

text \<open>Loading the dictionary of a module into a module of the same architecture gives
  the parameters of the first.\<close>

lemma load_state_dict_own:
  assumes "same_architecture m fresh"
  shows "load_state_dict fresh (state_dict m) = Inr m"
proof -
  obtain l1 l2 l3 where m: "m = \<lparr>linear1 = l1, linear2 = l2, linear3 = l3\<rparr>"
    by (cases m) auto
  obtain w1 b1 where l1: "l1 = \<lparr>weight = w1, bias = b1\<rparr>" by (cases l1) auto
  obtain w2 b2 where l2: "l2 = \<lparr>weight = w2, bias = b2\<rparr>" by (cases l2) auto
  obtain w3 b3 where l3: "l3 = \<lparr>weight = w3, bias = b3\<rparr>" by (cases l3) auto
  have keys: "map fst (state_dict m) = map fst (state_dict fresh)"
    by (simp add: state_dict_def)
  have shapes: "\<not> list_ex (\<lambda>(k, v). map_option shape (map_of (state_dict m) k) \<noteq> Some (shape v))
                  (state_dict fresh)"
    using assms by (simp add: same_architecture_def state_dict_def)
  show ?thesis
    unfolding load_state_dict_def Let_def using keys shapes
    by (simp add: state_dict_def m l1 l2 l3)
qed

section \<open>Properties of the start of the script\<close>

text \<open>Unpacking a batch does not look at the devices of its tensors, so the validation
  steps on the batches of a wrapped loader are those on the batches it wraps.\<close>

lemma unpack_pair_moved:
  "unpack_pair (map (\<lambda>x. to_device x dev) xs) = unpack_pair xs"
  by (induction xs rule: unpack_pair.induct) simp_all

lemma unpack_moved: "unpack (to_device b dev) = unpack b"
  by (cases b) (simp_all add: unpack_pair_moved)

lemma validation_step_moved:
  "validation_step T m (to_device b dev) = validation_step T m b"
  by (simp add: validation_step_def unpack_moved)

lemma validation_steps_moved:
  "validation_steps T m (map (\<lambda>b. to_device b dev) bs) = validation_steps T m bs"
  by (induction bs) (auto simp: validation_step_moved split: sum.splits)

lemma evaluate_wrapped:
  "map_sum id fst (evaluate T (DeviceDataLoader_iter L) s)
     = (case validation_steps T (net s) (fst (batches (dl L) (world s))) of
          Inl e \<Rightarrow> Inl e
        | Inr outputs \<Rightarrow> validation_epoch_end outputs)"
proof -
  obtain bs w' where it: "batches (dl L) (world s) = (bs, w')"
    by (cases "batches (dl L) (world s)")
  show ?thesis
    by (simp add: evaluate_def DeviceDataLoader_iter_def it validation_steps_moved
        split: sum.splits)
qed

lemma list_case_pair_other:
  "\<not> (\<exists>a b. xs = [a, b]) \<Longrightarrow> (case xs of [a, b] \<Rightarrow> f a b | _ \<Rightarrow> d) = d"
  by (auto split: list.splits)

text \<open>The baseline outcome in terms of the library routines alone: the earlier state
  of the generator enters only through the seeding, and neither the device nor the
  files enter at all.\<close>

lemma baseline_unfold:
  "baseline T R cuda dataset fs w0 =
     (case random_split R dataset [int (dataset_len R dataset) - 10000, 10000]
             (manual_seed R 42 w0) of
        Inl e \<Rightarrow> Inl e
      | Inr (parts, w2) \<Rightarrow>
          (case parts of
             [train_ds, val_ds] \<Rightarrow>
               (case CIFARModel_new R 1024 128 10 (snd (CIFARModel_new R 1024 128 10 w2)) of
                  ((model, g), w4) \<Rightarrow>
                    (case validation_steps T model
                            (fst (batches (DataLoader_new R val_ds 128 False) w4)) of
                       Inl e \<Rightarrow> Inl e
                     | Inr outputs \<Rightarrow> validation_epoch_end outputs))
           | _ \<Rightarrow> Inl ValueError))"
proof (cases "random_split R dataset [int (dataset_len R dataset) - 10000, 10000]
                (manual_seed R 42 w0)")
  case (Inl e)
  then show ?thesis by (simp add: baseline_def script_start_def Let_def)
next
  case (Inr pw)
  obtain parts w2 where pw: "pw = (parts, w2)" by (cases pw)
  note split = Inr [unfolded pw]
  show ?thesis
  proof (cases "\<exists>train_ds val_ds. parts = [train_ds, val_ds]")
    case True
    then obtain train_ds val_ds where parts: "parts = [train_ds, val_ds]" by blast
    obtain fm w3 where m1: "CIFARModel_new R 1024 128 10 w2 = (fm, w3)"
      by (cases "CIFARModel_new R 1024 128 10 w2")
    obtain model g w4 where m2: "CIFARModel_new R 1024 128 10 w3 = ((model, g), w4)"
      by (cases "CIFARModel_new R 1024 128 10 w3") auto
    let ?val = "\<lparr>dl = DataLoader_new R val_ds 128 False, device = get_default_device cuda\<rparr>"
    let ?st = "\<lparr>net = model, grads = g, world = w4, events = [], files = fs\<rparr>"
    have ss: "script_start R cuda dataset fs w0 =
        Inr (\<lparr>dl = DataLoader_new R train_ds 64 True, device = get_default_device cuda\<rparr>,
             ?val, ?st)"
      by (simp add: script_start_def Let_def split parts m1 m2)
    have "baseline T R cuda dataset fs w0
            = map_sum id fst (evaluate T (DeviceDataLoader_iter ?val) ?st)"
      by (simp add: baseline_def ss)
    also have "\<dots> = (case validation_steps T model
                            (fst (batches (DataLoader_new R val_ds 128 False) w4)) of
                       Inl e \<Rightarrow> Inl e
                     | Inr outputs \<Rightarrow> validation_epoch_end outputs)"
      unfolding evaluate_wrapped by simp
    finally show ?thesis by (simp add: split parts m1 m2)
  next
    case False
    note other = list_case_pair_other [OF False]
    have "script_start R cuda dataset fs w0 = Inl ValueError"
      by (simp add: script_start_def Let_def split other)
    moreover have "(case parts of [train_ds, val_ds] \<Rightarrow>
               (case CIFARModel_new R 1024 128 10 (snd (CIFARModel_new R 1024 128 10 w2)) of
                  ((model, g), w4) \<Rightarrow>
                    (case validation_steps T model
                            (fst (batches (DataLoader_new R val_ds 128 False) w4)) of
                       Inl e \<Rightarrow> Inl e
                     | Inr outputs \<Rightarrow> validation_epoch_end outputs))
           | _ \<Rightarrow> Inl ValueError) = Inl ValueError"
      by (rule other)
    ultimately show ?thesis by (simp add: baseline_def split)
  qed
qed

lemma training_run_baseline:
  assumes "training_run T trn val s = Inr (h, t)"
  shows "map_sum id fst (evaluate T (DeviceDataLoader_iter val) s) = Inr (h ! 0)"
  using assms by (auto simp: training_run_def Let_def split: sum.splits)

section \<open>The small instance\<close>

lemma small_forward:
  "forward small_torch small_model [[1]] = Inr [[1, - 1]]"
  "forward small_torch small_model [[1], [2], [3]] = Inr [[1, - 1], [2, - 2], [3, - 3]]"
  by (simp_all add: forward_def small_torch_def small_model_def)

lemma small_validation_steps:
  "validation_steps small_torch small_model [batch_a, batch_b]
     = Inr [\<lparr>val_loss = 0, val_acc = 1\<rparr>, \<lparr>val_loss = 3, val_acc = 0\<rparr>]"
proof -
  have ce: "cross_entropy small_torch [[1, - 1]] [0] = Inr 0"
    "cross_entropy small_torch [[1, - 1], [2, - 2], [3, - 3]] [1, 1, 1] = Inr 3"
    by (simp_all add: small_torch_def)
  have acc: "accuracy [[1, - 1]] [0] = Inr 1"
    "accuracy [[1, - 1], [2, - 2], [3, - 3]] [1, 1, 1] = Inr 0"
    by (simp_all add: accuracy_def count_eq_def)
  show ?thesis
    by (simp add: validation_step_def batch_a_def batch_b_def small_forward ce acc)
qed

lemma small_evaluate:
  "\<exists>s'. evaluate small_torch (batches small_val) small_state
     = Inr (\<lparr>val_loss = 3 / 2, val_acc = 1 / 2\<rparr>, s')"
proof -
  have vs: "validation_steps small_torch (net small_state) [batch_a, batch_b]
     = Inr [\<lparr>val_loss = 0, val_acc = 1\<rparr>, \<lparr>val_loss = 3, val_acc = 0\<rparr>]"
    using small_validation_steps by (simp add: small_state_def)
  have ve: "validation_epoch_end [\<lparr>val_loss = 0, val_acc = 1\<rparr>, \<lparr>val_loss = 3, val_acc = 0\<rparr>]
     = Inr \<lparr>val_loss = 3 / 2, val_acc = 1 / 2\<rparr>"
    by (simp add: validation_epoch_end_def stack_mean_def)
  have it: "batches small_val (world small_state) = ([batch_a, batch_b], ())"
    by (simp add: small_val_def)
  show ?thesis
    unfolding evaluate_def it using vs ve by simp
qed

lemma small_forward_shape:
  "\<exists>out. forward small_torch m x = Inr out \<and> length out = length x
     \<and> (weight (linear3 m) \<noteq> [] \<and> bias (linear3 m) \<noteq> [] \<longrightarrow> [] \<notin> set out)"
  by (auto simp: forward_def small_torch_def)

lemma small_validation_step_ok:
  assumes "unpack b = Inr (x, l)" and "length x = length l" and "x \<noteq> []"
    and "weight (linear3 m) \<noteq> []" and "bias (linear3 m) \<noteq> []"
  shows "\<exists>r. validation_step small_torch m b = Inr r"
proof -
  from small_forward_shape [of m x] assms(4,5) obtain out where
    f: "forward small_torch m x = Inr out" and len: "length out = length x"
    and rows: "[] \<notin> set out" by blast
  have ne: "out \<noteq> []" using len assms(3) by auto
  have ce: "\<exists>loss. cross_entropy small_torch out l = Inr loss"
    using len assms(2) by (simp add: small_torch_def)
  have "\<exists>a. accuracy out l = Inr a"
    by (rule accuracy_returns) (use ne len assms(2) rows in simp_all)
  with ce f assms(1) show ?thesis
    by (auto simp: validation_step_def)
qed

lemma small_training_step_ok:
  assumes "unpack b = Inr (x, l)" and "length x = length l"
  shows "\<exists>loss. training_step small_torch m b = Inr loss"
proof -
  from small_forward_shape [of m x] obtain out where
    f: "forward small_torch m x = Inr out" and len: "length out = length x" by blast
  have "\<exists>loss. cross_entropy small_torch out l = Inr loss"
    using len assms(2) by (simp add: small_torch_def)
  with f assms(1) show ?thesis by (auto simp: training_step_def)
qed

lemma small_step_inv:
  "weight (linear3 m) \<noteq> [] \<and> bias (linear3 m) \<noteq> [] \<Longrightarrow>
   weight (linear3 (fst (step small_torch opt m g))) \<noteq> []
     \<and> bias (linear3 (fst (step small_torch opt m g))) \<noteq> []"
  by (simp add: small_torch_def)

lemma small_unpack:
  "unpack (to_device batch_a dev) = Inr ([[1]], [0])"
  "unpack (to_device batch_b dev) = Inr ([[1], [2], [3]], [1, 1, 1])"
  "unpack batch_a = Inr ([[1]], [0])"
  "unpack batch_b = Inr ([[1], [2], [3]], [1, 1, 1])"
  by (simp_all add: batch_a_def batch_b_def)

lemma small_validation_ok:
  assumes "weight (linear3 m) \<noteq> [] \<and> bias (linear3 m) \<noteq> []"
    and "unpack a = Inr ([[1]], [0])" and "unpack b = Inr ([[1], [2], [3]], [1, 1, 1])"
  shows "\<exists>outs r. validation_steps small_torch m [a, b] = Inr outs
           \<and> validation_epoch_end outs = Inr r"
proof -
  from small_validation_step_ok [OF assms(2), of m] assms(1)
  obtain r1 where r1: "validation_step small_torch m a = Inr r1" by auto
  from small_validation_step_ok [OF assms(3), of m] assms(1)
  obtain r2 where r2: "validation_step small_torch m b = Inr r2" by auto
  have "validation_steps small_torch m [a, b] = Inr [r1, r2]"
    using r1 r2 by simp
  moreover have "\<exists>r. validation_epoch_end [r1, r2] = Inr r"
    using validation_epoch_end_mean [of "[r1, r2]"] by simp
  ultimately show ?thesis by blast
qed

lemma small_fit_returns:
  assumes inv: "weight (linear3 (net s)) \<noteq> [] \<and> bias (linear3 (net s)) \<noteq> []"
    and lr: "0 \<le> lr"
    and trn: "\<And>w. \<forall>b \<in> set (fst (trn w)). unpack b = Inr ([[1]], [0])"
    and val: "\<And>w. \<exists>a b. fst (val w) = [a, b] \<and> unpack a = Inr ([[1]], [0])
                 \<and> unpack b = Inr ([[1], [2], [3]], [1, 1, 1])"
  shows "\<exists>history s'. fit small_torch epochs lr trn val s = Inr (history, s')
           \<and> (weight (linear3 (net s')) \<noteq> [] \<and> bias (linear3 (net s')) \<noteq> [])"
proof (rule fit_returns [where I = "\<lambda>m. weight (linear3 m) \<noteq> [] \<and> bias (linear3 m) \<noteq> []"])
  show "\<And>m opt g. weight (linear3 m) \<noteq> [] \<and> bias (linear3 m) \<noteq> [] \<Longrightarrow>
          weight (linear3 (fst (step small_torch opt m g))) \<noteq> []
            \<and> bias (linear3 (fst (step small_torch opt m g))) \<noteq> []"
    by (rule small_step_inv)
  show "\<And>m w b. weight (linear3 m) \<noteq> [] \<and> bias (linear3 m) \<noteq> [] \<Longrightarrow>
          b \<in> set (fst (trn w)) \<Longrightarrow> \<exists>l. training_step small_torch m b = Inr l"
    using trn by (auto intro: small_training_step_ok)
  show "\<And>m w. weight (linear3 m) \<noteq> [] \<and> bias (linear3 m) \<noteq> [] \<Longrightarrow>
          \<exists>outs r. validation_steps small_torch m (fst (val w)) = Inr outs
             \<and> validation_epoch_end outs = Inr r"
  proof -
    fix m :: CIFARModel and w assume m: "weight (linear3 m) \<noteq> [] \<and> bias (linear3 m) \<noteq> []"
    from val [of w] obtain a b where "fst (val w) = [a, b]" "unpack a = Inr ([[1]], [0])"
      "unpack b = Inr ([[1], [2], [3]], [1, 1, 1])" by blast
    with small_validation_ok [OF m, of a b]
    show "\<exists>outs r. validation_steps small_torch m (fst (val w)) = Inr outs
             \<and> validation_epoch_end outs = Inr r" by simp
  qed
  show "weight (linear3 (net s)) \<noteq> [] \<and> bias (linear3 (net s)) \<noteq> []" by (rule inv)
  show "opt_func small_torch (net s) lr = Inr lr" using lr by (simp add: small_torch_def)
qed

lemma small_inv: "weight (linear3 (net small_state)) \<noteq> [] \<and> bias (linear3 (net small_state)) \<noteq> []"
  by (simp add: small_state_def small_model_def)

lemma small_loaders:
  "\<forall>b \<in> set (fst (batches small_train w)). unpack b = Inr ([[1]], [0])"
  "\<exists>a b. fst (batches small_val w) = [a, b] \<and> unpack a = Inr ([[1]], [0])
      \<and> unpack b = Inr ([[1], [2], [3]], [1, 1, 1])"
  "\<forall>b \<in> set (fst (DeviceDataLoader_iter \<lparr>dl = small_train, device = CUDA\<rparr> w)).
      unpack b = Inr ([[1]], [0])"
  "\<exists>a b. fst (DeviceDataLoader_iter \<lparr>dl = small_val, device = CUDA\<rparr> w) = [a, b]
      \<and> unpack a = Inr ([[1]], [0]) \<and> unpack b = Inr ([[1], [2], [3]], [1, 1, 1])"
  by (simp_all add: small_train_def small_val_def DeviceDataLoader_iter_def small_unpack)

lemma small_training_run_returns:
  "\<exists>history s'. training_run small_torch \<lparr>dl = small_train, device = CUDA\<rparr>
       \<lparr>dl = small_val, device = CUDA\<rparr> small_state = Inr (history, s')"
proof -
  let ?trn = "DeviceDataLoader_iter \<lparr>dl = small_train, device = CUDA\<rparr>"
  let ?val = "DeviceDataLoader_iter \<lparr>dl = small_val, device = CUDA\<rparr>"
  let ?I = "\<lambda>s::(nat, unit) state. weight (linear3 (net s)) \<noteq> [] \<and> bias (linear3 (net s)) \<noteq> []"
  obtain a b where val: "fst (?val (world small_state)) = [a, b]"
    and ua: "unpack a = Inr ([[1]], [0])" and ub: "unpack b = Inr ([[1], [2], [3]], [1, 1, 1])"
    using small_loaders(4) by blast
  from small_validation_ok [OF small_inv ua ub] obtain outs r where
    vs: "validation_steps small_torch (net small_state) [a, b] = Inr outs"
    and ve: "validation_epoch_end outs = Inr r" by blast
  obtain w' where it: "?val (world small_state) = ([a, b], w')"
    using val by (cases "?val (world small_state)") simp
  let ?s0 = "emit (map ValidationStep [a, b]) (small_state\<lparr>world := w'\<rparr>)"
  have ev: "evaluate small_torch ?val small_state = Inr (r, ?s0)"
    unfolding evaluate_def it using vs ve by simp
  let ?s0' = "emit [PrintHistory [r]] ?s0"
  have i0: "?I ?s0'" using small_inv by (simp add: emit_simps)
  have "\<exists>h1 s1. fit small_torch 5 0.5 ?trn ?val ?s0' = Inr (h1, s1) \<and> ?I s1"
    by (rule small_fit_returns) (use i0 small_loaders in simp_all)
  then obtain h1 s1 where f1: "fit small_torch 5 0.5 ?trn ?val ?s0' = Inr (h1, s1)"
    and i1: "?I s1" by blast
  have "\<exists>h2 s2. fit small_torch 25 0.1 ?trn ?val s1 = Inr (h2, s2) \<and> ?I s2"
    by (rule small_fit_returns) (use i1 small_loaders in simp_all)
  then obtain h2 s2 where f2: "fit small_torch 25 0.1 ?trn ?val s1 = Inr (h2, s2)"
    and i2: "?I s2" by blast
  have "\<exists>h3 s3. fit small_torch 15 0.05 ?trn ?val s2 = Inr (h3, s3) \<and> ?I s3"
    by (rule small_fit_returns) (use i2 small_loaders in simp_all)
  then obtain h3 s3 where f3: "fit small_torch 15 0.05 ?trn ?val s2 = Inr (h3, s3)" by blast
  show ?thesis
    unfolding training_run_def Let_def using ev f1 f2 f3 by simp
qed


lemma small_baseline:
  "baseline small_torch small_random True [batch_a, batch_a, batch_b] Map.empty 3
     = Inr \<lparr>val_loss = 3 / 2, val_acc = 1 / 2\<rparr>"
proof -
  have f: "forward small_torch
             (small_model\<lparr>linear3 := \<lparr>weight = [[1], [- 1]], bias = [44, 44]\<rparr>\<rparr>) [[1]]
             = Inr [[45, 43]]"
    "forward small_torch
             (small_model\<lparr>linear3 := \<lparr>weight = [[1], [- 1]], bias = [44, 44]\<rparr>\<rparr>) [[1], [2], [3]]
             = Inr [[45, 43], [46, 42], [47, 41]]"
    by (simp_all add: forward_def small_torch_def small_model_def)
  have ce: "cross_entropy small_torch [[45, 43]] [0] = Inr 0"
    "cross_entropy small_torch [[45, 43], [46, 42], [47, 41]] [1, 1, 1] = Inr 3"
    by (simp_all add: small_torch_def)
  have acc: "accuracy [[45, 43]] [0] = Inr 1"
    "accuracy [[45, 43], [46, 42], [47, 41]] [1, 1, 1] = Inr 0"
    by (simp_all add: accuracy_def count_eq_def)
  have vs: "validation_steps small_torch
      (small_model\<lparr>linear3 := \<lparr>weight = [[1], [- 1]], bias = [44, 44]\<rparr>\<rparr>) [batch_a, batch_b]
      = Inr [\<lparr>val_loss = 0, val_acc = 1\<rparr>, \<lparr>val_loss = 3, val_acc = 0\<rparr>]"
    by (simp add: validation_step_def batch_a_def batch_b_def f ce acc)
  have ve: "validation_epoch_end [\<lparr>val_loss = 0, val_acc = 1\<rparr>, \<lparr>val_loss = 3, val_acc = 0\<rparr>]
     = Inr \<lparr>val_loss = 3 / 2, val_acc = 1 / 2\<rparr>"
    by (simp add: validation_epoch_end_def stack_mean_def)
  show ?thesis
    unfolding baseline_unfold
    by (simp add: small_random_def vs ve del: validation_steps.simps)
qed

section \<open>The claims\<close>

text \<open>
  C1. On a batch with at least one sample, as many labels as samples and at least one
  class score per sample, \<open>accuracy\<close> returns the number of samples whose arg-max index
  equals the label, divided by the number of samples; the value lies between 0 and 1.
  On the four-sample batch below three samples are classified correctly and the value
  is 0.75.
\<close>

theorem accuracy_fraction:
  "(outputs \<noteq> [] \<and> length outputs = length labels \<and> [] \<notin> set outputs \<longrightarrow>
      accuracy outputs labels =
        Inr (real (card {i. i < length outputs \<and> int (argmax (outputs ! i)) = labels ! i})
             / real (length outputs))
      \<and> (\<exists>a. accuracy outputs labels = Inr a \<and> 0 \<le> a \<and> a \<le> 1))
   \<and> accuracy [[1, 5, 2], [7, 0, 3], [0, 1, 9], [4, 4, 1]] [1, 0, 2, 1] = Inr 0.75"
proof (intro conjI impI)
  assume h: "outputs \<noteq> [] \<and> length outputs = length labels \<and> [] \<notin> set outputs"
  let ?S = "{i. i < length outputs \<and> int (argmax (outputs ! i)) = labels ! i}"
  from h have a: "outputs \<noteq> []" and b: "length outputs = length labels"
    and c: "[] \<notin> set outputs" by blast+
  show eq: "accuracy outputs labels = Inr (real (card ?S) / real (length outputs))"
    by (rule accuracy_value [OF a b c])
  have "?S \<subseteq> {..<length outputs}" by auto
  then have "card ?S \<le> card {..<length outputs}" by (rule card_mono [rotated]) simp
  then have le: "card ?S \<le> length outputs" by simp
  from a have pos: "0 < length outputs" by simp
  have "real (card ?S) / real (length outputs) \<le> 1"
    using le pos by simp
  then show "\<exists>a. accuracy outputs labels = Inr a \<and> 0 \<le> a \<and> a \<le> 1"
    using eq by simp
next
  show "accuracy [[1, 5, 2], [7, 0, 3], [0, 1, 9], [4, 4, 1]] [1, 0, 2, 1] = Inr 0.75"
    by (simp add: accuracy_def count_eq_def)
qed

theorem accuracy_fraction_witness:
  "accuracy [[2, 1], [0, 3]] [0, 0] = Inr (1 / 2)"
proof -
  have S: "{i. i < length [[2, 1], [0, 3::real]] \<and>
             int (argmax ([[2, 1], [0, 3]] ! i)) = [0, 0] ! i} = {0}"
    by (auto simp: less_Suc_eq nth_Cons')
  from accuracy_fraction [of "[[2, 1], [0, 3]]" "[0, 0]"]
  have "accuracy [[2, 1], [0, 3]] [0, 0] =
          Inr (real (card {i. i < length [[2, 1], [0, 3::real]] \<and>
             int (argmax ([[2, 1], [0, 3]] ! i)) = [0, 0] ! i}) / real (length [[2, 1], [0, 3::real]]))"
    by simp
  then show ?thesis unfolding S by simp
qed



text \<open>
  C3. When the validation loader yields at least one batch and every validation step
  succeeds, \<open>evaluate\<close> returns the sum of the per-batch losses divided by the number of
  batches and the sum of the per-batch accuracies divided by the number of batches:
  every batch has the same weight, whatever its size. In the witness a batch of one
  sample with accuracy 1 and a batch of three samples with accuracy 0 give 1/2.
\<close>

theorem evaluate_mean_of_batch_means:
  assumes "val_loader (world s) = (bs, w')" and "bs \<noteq> []"
    and "validation_steps T (net s) bs = Inr outputs"
  shows "length outputs = length bs
       \<and> (\<forall>i < length bs. validation_step T (net s) (bs ! i) = Inr (outputs ! i))
       \<and> (\<exists>s'. evaluate T val_loader s =
            Inr (\<lparr>val_loss = (\<Sum>i<length bs. val_loss (outputs ! i)) / real (length bs),
                  val_acc = (\<Sum>i<length bs. val_acc (outputs ! i)) / real (length bs)\<rparr>, s'))"
proof -
  from validation_steps_nth [OF assms(3)] have len: "length outputs = length bs"
    and nth: "\<forall>i < length bs. validation_step T (net s) (bs ! i) = Inr (outputs ! i)"
    by simp_all
  from len assms(2) have ne: "outputs \<noteq> []" by auto
  show ?thesis
    using len nth validation_epoch_end_mean [OF ne] assms(1,3)
    by (simp add: evaluate_def)
qed

theorem evaluate_mean_of_batch_means_witness:
  "\<exists>s'. evaluate small_torch (batches small_val) small_state
          = Inr (\<lparr>val_loss = 3 / 2, val_acc = 1 / 2\<rparr>, s')"
proof -
  have a: "batches small_val (world small_state) = ([batch_a, batch_b], ())"
    by (simp add: small_val_def)
  have b: "[batch_a, batch_b] \<noteq> []" by simp
  have c: "validation_steps small_torch (net small_state) [batch_a, batch_b]
     = Inr [\<lparr>val_loss = 0, val_acc = 1\<rparr>, \<lparr>val_loss = 3, val_acc = 0\<rparr>]"
    using small_validation_steps by (simp add: small_state_def)
  from evaluate_mean_of_batch_means
         [where val_loader = "batches small_val" and s = small_state, OF a b c]
  show ?thesis
    by (simp add: lessThan_Suc numeral_2_eq_2)
qed

text \<open>
  C4. A returning call of \<open>evaluate\<close> leaves the parameters, that is the weight matrix
  and the bias vector of each of the three layers, and the accumulated gradients as they
  were; the only events it adds are validation steps; and the result it returns is the
  reduction by \<open>validation_epoch_end\<close> of the outputs of the validation steps.
\<close>

theorem evaluate_no_update:
  assumes "evaluate T val_loader s = Inr (r, s')"
  shows "net s' = net s
       \<and> weight (linear1 (net s')) = weight (linear1 (net s))
       \<and> bias (linear1 (net s')) = bias (linear1 (net s))
       \<and> weight (linear2 (net s')) = weight (linear2 (net s))
       \<and> bias (linear2 (net s')) = bias (linear2 (net s))
       \<and> weight (linear3 (net s')) = weight (linear3 (net s))
       \<and> bias (linear3 (net s')) = bias (linear3 (net s))
       \<and> grads s' = grads s
       \<and> events s' = events s @ map ValidationStep (fst (val_loader (world s)))
       \<and> (\<exists>outputs. validation_steps T (net s) (fst (val_loader (world s))) = Inr outputs
            \<and> validation_epoch_end outputs = Inr r)"
proof -
  from evaluate_Inr [OF assms] obtain outputs where
    "validation_steps T (net s) (fst (val_loader (world s))) = Inr outputs"
    "validation_epoch_end outputs = Inr r" by blast
  then show ?thesis using evaluate_frame [OF assms] by auto
qed

theorem evaluate_no_update_witness:
  "\<exists>r s'. evaluate small_torch (batches small_val) small_state = Inr (r, s')
      \<and> net s' = small_model \<and> grads s' = 0"
proof -
  from small_evaluate obtain r s' where
    ev: "evaluate small_torch (batches small_val) small_state = Inr (r, s')" by blast
  from evaluate_no_update [OF ev] have "net s' = net small_state" "grads s' = grads small_state"
    by simp_all
  then show ?thesis using ev by (auto simp: small_state_def)
qed

text \<open>
  C5. A returning training run is the baseline evaluation on the parameters it starts
  from, followed by three calls of \<open>fit\<close> with 5 epochs at rate 0.5, 25 epochs at rate
  0.1 and 15 epochs at rate 0.05, each starting in the state the call before left. The
  history is the baseline result followed by the histories of the three calls in that
  order, 46 entries, and the events show the three optimizers constructed, each followed
  by the epochs of its call.
\<close>

theorem training_run_schedule:
  assumes "training_run T train_loader val_loader s = Inr (history, s')"
  shows "\<exists>baseline s0 h1 s1 h2 s2 h3.
      evaluate T (DeviceDataLoader_iter val_loader) s = Inr (baseline, s0)
    \<and> net s0 = net s
    \<and> fit T 5 0.5 (DeviceDataLoader_iter train_loader) (DeviceDataLoader_iter val_loader)
        (emit [PrintHistory [baseline]] s0) = Inr (h1, s1)
    \<and> fit T 25 0.1 (DeviceDataLoader_iter train_loader) (DeviceDataLoader_iter val_loader) s1
        = Inr (h2, s2)
    \<and> fit T 15 0.05 (DeviceDataLoader_iter train_loader) (DeviceDataLoader_iter val_loader) s2
        = Inr (h3, s')
    \<and> history = baseline # h1 @ h2 @ h3
    \<and> length h1 = 5 \<and> length h2 = 25 \<and> length h3 = 15
    \<and> length history = 1 + 5 + 25 + 15
    \<and> events s' = events s
        @ map ValidationStep (fst (DeviceDataLoader_iter val_loader (world s)))
        @ [PrintHistory [baseline]]
        @ [MakeOptimizer 0.5]
        @ fit_events (DeviceDataLoader_iter train_loader) (DeviceDataLoader_iter val_loader)
            (world s0) 0 h1
        @ [MakeOptimizer 0.1]
        @ fit_events (DeviceDataLoader_iter train_loader) (DeviceDataLoader_iter val_loader)
            (world s1) 0 h2
        @ [MakeOptimizer 0.05]
        @ fit_events (DeviceDataLoader_iter train_loader) (DeviceDataLoader_iter val_loader)
            (world s2) 0 h3"
proof -
  let ?trn = "DeviceDataLoader_iter train_loader"
  let ?val = "DeviceDataLoader_iter val_loader"
  from assms obtain baseline s0 where
    ev: "evaluate T ?val s = Inr (baseline, s0)"
    by (auto simp: training_run_def split: sum.splits)
  let ?s0 = "emit [PrintHistory [baseline]] s0"
  from assms ev obtain h1 s1 where
    f1: "fit T 5 0.5 ?trn ?val ?s0 = Inr (h1, s1)"
    by (auto simp: training_run_def Let_def split: sum.splits)
  from assms ev f1 obtain h2 s2 where
    f2: "fit T 25 0.1 ?trn ?val s1 = Inr (h2, s2)"
    by (auto simp: training_run_def Let_def split: sum.splits)
  from assms ev f1 f2 obtain h3 where
    f3: "fit T 15 0.05 ?trn ?val s2 = Inr (h3, s')"
    and h: "history = baseline # h1 @ h2 @ h3"
    by (auto simp: training_run_def Let_def split: sum.splits)
  have l1: "length h1 = 5" using fit_trace(1) [OF f1] by simp
  have l2: "length h2 = 25" using fit_trace(1) [OF f2] by simp
  have l3: "length h3 = 15" using fit_trace(1) [OF f3] by simp
  have e0: "events ?s0 = events s @ map ValidationStep (fst (?val (world s)))
              @ [PrintHistory [baseline]]"
    using evaluate_frame(5) [OF ev] by (simp add: emit_simps)
  have w0: "world ?s0 = world s0" by (simp add: emit_simps)
  have e1: "events s1 = events ?s0 @ [MakeOptimizer 0.5] @ fit_events ?trn ?val (world s0) 0 h1"
    using fit_trace(2) [OF f1] w0 by simp
  have e2: "events s2 = events s1 @ [MakeOptimizer 0.1] @ fit_events ?trn ?val (world s1) 0 h2"
    using fit_trace(2) [OF f2] by simp
  have e3: "events s' = events s2 @ [MakeOptimizer 0.05] @ fit_events ?trn ?val (world s2) 0 h3"
    using fit_trace(2) [OF f3] by simp
  have n0: "net s0 = net s" by (rule evaluate_frame(1) [OF ev])
  have ev_all: "events s' = events s
        @ map ValidationStep (fst (?val (world s)))
        @ [PrintHistory [baseline]]
        @ [MakeOptimizer 0.5] @ fit_events ?trn ?val (world s0) 0 h1
        @ [MakeOptimizer 0.1] @ fit_events ?trn ?val (world s1) 0 h2
        @ [MakeOptimizer 0.05] @ fit_events ?trn ?val (world s2) 0 h3"
    unfolding e3 e2 e1 e0 by simp
  have len: "length history = 1 + 5 + 25 + 15" using h l1 l2 l3 by simp
  show ?thesis
    using ev n0 f1 f2 f3 h l1 l2 l3 len ev_all by blast
qed

theorem training_run_schedule_witness:
  "\<exists>history s'. training_run small_torch \<lparr>dl = small_train, device = CUDA\<rparr>
       \<lparr>dl = small_val, device = CUDA\<rparr> small_state = Inr (history, s')
     \<and> length history = 46"
proof -
  from small_training_run_returns obtain history s' where
    run: "training_run small_torch \<lparr>dl = small_train, device = CUDA\<rparr>
       \<lparr>dl = small_val, device = CUDA\<rparr> small_state = Inr (history, s')" by blast
  from training_run_schedule [OF run] have "length history = 46" by auto
  then show ?thesis using run by blast
qed

text \<open>
  C6. When the optimizer can be constructed, \<open>fit\<close> with 0 epochs returns the empty
  history and leaves the parameters and the gradients unchanged; so a baseline
  evaluation followed by such a call gives the history with the baseline entry alone,
  on the parameters the evaluation started from.
\<close>

theorem fit_zero_epochs:
  assumes "opt_func T (net s) lr = Inr optimizer"
  shows "(\<exists>s'. fit T 0 lr train_loader val_loader s = Inr ([], s')
            \<and> net s' = net s \<and> grads s' = grads s
            \<and> weight (linear1 (net s')) = weight (linear1 (net s))
            \<and> bias (linear1 (net s')) = bias (linear1 (net s))
            \<and> weight (linear2 (net s')) = weight (linear2 (net s))
            \<and> bias (linear2 (net s')) = bias (linear2 (net s))
            \<and> weight (linear3 (net s')) = weight (linear3 (net s))
            \<and> bias (linear3 (net s')) = bias (linear3 (net s)))
       \<and> (\<forall>baseline s0. evaluate T val_loader s0 = Inr (baseline, s) \<longrightarrow>
            (\<exists>h s'. fit T 0 lr train_loader val_loader s = Inr (h, s')
               \<and> [baseline] @ h = [baseline] \<and> net s' = net s0))"
proof -
  have run: "fit T 0 lr train_loader val_loader s = Inr ([], emit [MakeOptimizer lr] s)"
    using assms by (simp add: fit_def)
  show ?thesis
  proof (intro conjI allI impI)
    show "\<exists>s'. fit T 0 lr train_loader val_loader s = Inr ([], s')
            \<and> net s' = net s \<and> grads s' = grads s
            \<and> weight (linear1 (net s')) = weight (linear1 (net s))
            \<and> bias (linear1 (net s')) = bias (linear1 (net s))
            \<and> weight (linear2 (net s')) = weight (linear2 (net s))
            \<and> bias (linear2 (net s')) = bias (linear2 (net s))
            \<and> weight (linear3 (net s')) = weight (linear3 (net s))
            \<and> bias (linear3 (net s')) = bias (linear3 (net s))"
      using run by (simp add: emit_simps)
  next
    fix baseline s0
    assume "evaluate T val_loader s0 = Inr (baseline, s)"
    from evaluate_frame(1) [OF this] run
    show "\<exists>h s'. fit T 0 lr train_loader val_loader s = Inr (h, s')
               \<and> [baseline] @ h = [baseline] \<and> net s' = net s0"
      by (simp add: emit_simps)
  qed
qed

theorem fit_zero_epochs_witness:
  "\<exists>s'. fit small_torch 0 0.5 (batches small_train) (batches small_val) small_state = Inr ([], s')
      \<and> net s' = small_model"
proof -
  have opt: "opt_func small_torch (net small_state) 0.5 = Inr 0.5"
    by (simp add: small_torch_def)
  from fit_zero_epochs [OF opt, of "batches small_train" "batches small_val"]
  show ?thesis by (auto simp: small_state_def)
qed

text \<open>
  C7. Let the fresh module have the architecture of the trained one and let the test
  loader yield the same batches at every pass. Loading the saved dictionary gives the
  fresh module the parameters of the trained one, reading the file back gives the
  dictionary written, and when the evaluation of the trained module returns a result,
  the sanity check returns, and the evaluation of the reloaded module has the same
  result.
\<close>

theorem checkpoint_roundtrip:
  assumes arch: "same_architecture (net s) fresh"
    and same_set: "\<forall>w. fst (batches test_loader w) = bs"
    and first: "evaluate T (batches test_loader) s = Inr (r, s1)"
  shows "load_state_dict fresh (state_dict (net s)) = Inr (net s)
       \<and> torch_load path (torch_save (state_dict (net s)) path s) = Inr (state_dict (net s))
       \<and> (\<exists>s'. sanity_check T test_loader fresh fresh_grads s = Inr ((r, r), s'))"
proof -
  from evaluate_Inr [OF first] same_set obtain outputs where
    vs: "validation_steps T (net s) bs = Inr outputs"
    and ve: "validation_epoch_end outputs = Inr r" by auto
  have net1: "net s1 = net s" by (rule evaluate_frame(1) [OF first])
  let ?s2 = "emit [PrintResult r] s1"
  let ?s3 = "torch_save (state_dict (net ?s2)) ''cifar10-nn-weights.pth'' ?s2"
  have ld: "torch_load ''cifar10-nn-weights.pth'' ?s3 = Inr (state_dict (net s))"
    by (simp add: torch_load_def torch_save_def emit_simps net1)
  have lsd: "load_state_dict fresh (state_dict (net s)) = Inr (net s)"
    by (rule load_state_dict_own [OF arch])
  let ?s3' = "?s3\<lparr>net := net s, grads := fresh_grads\<rparr>"
  obtain w2 where it: "batches test_loader (world ?s3') = (bs, w2)"
    using same_set by (cases "batches test_loader (world ?s3')") (metis fst_conv)
  have second: "evaluate T (batches test_loader) ?s3'
      = Inr (r, emit (map ValidationStep bs) (?s3'\<lparr>world := w2\<rparr>))"
    using it vs ve by (simp add: evaluate_def)
  have "\<exists>s'. sanity_check T test_loader fresh fresh_grads s = Inr ((r, r), s')"
    unfolding sanity_check_def Let_def using first ld lsd second by simp
  then show ?thesis using lsd by (simp add: torch_load_def torch_save_def)
qed

theorem checkpoint_roundtrip_witness:
  "\<exists>s'. sanity_check small_torch small_val blank_model 0 small_state
     = Inr ((\<lparr>val_loss = 3 / 2, val_acc = 1 / 2\<rparr>, \<lparr>val_loss = 3 / 2, val_acc = 1 / 2\<rparr>), s')"
proof -
  have arch: "same_architecture (net small_state) blank_model"
    by (simp add: same_architecture_def state_dict_def small_state_def small_model_def
        blank_model_def)
  have same_set: "\<forall>w. fst (batches small_val w) = [batch_a, batch_b]"
    by (simp add: small_val_def)
  from small_evaluate obtain s1 where
    first: "evaluate small_torch (batches small_val) small_state
              = Inr (\<lparr>val_loss = 3 / 2, val_acc = 1 / 2\<rparr>, s1)" by blast
  from checkpoint_roundtrip [where fresh = blank_model and fresh_grads = 0,
      OF arch same_set first]
  show ?thesis by simp
qed

text \<open>
  C8. The script seeds the generator before anything draws from it. So when seeding sets
  the state of the generator whatever that state was before (the contract of
  \<^verbatim>\<open>torch.manual_seed\<close>), two runs on the same dataset get the same outcome of the
  baseline evaluation, from any two earlier states of the generator, with any files and
  on either device; and the baseline entries of the histories of their training runs
  agree. The split of the dataset, the two constructions of the module and the loaders
  are the script's, from line 13 to line 155.
\<close>

theorem baseline_deterministic:
  assumes "\<forall>w w'. manual_seed R 42 w = manual_seed R 42 w'"
  shows "baseline T R cuda1 dataset fs1 w1 = baseline T R cuda2 dataset fs2 w2
       \<and> (\<forall>trn1 val1 s1 trn2 val2 s2 h1 t1 h2 t2.
            script_start R cuda1 dataset fs1 w1 = Inr (trn1, val1, s1)
          \<and> script_start R cuda2 dataset fs2 w2 = Inr (trn2, val2, s2)
          \<and> training_run T trn1 val1 s1 = Inr (h1, t1)
          \<and> training_run T trn2 val2 s2 = Inr (h2, t2)
          \<longrightarrow> h1 ! 0 = h2 ! 0)"
proof (intro conjI allI impI)
  from assms have seed: "manual_seed R 42 w1 = manual_seed R 42 w2" by blast
  show same: "baseline T R cuda1 dataset fs1 w1 = baseline T R cuda2 dataset fs2 w2"
    unfolding baseline_unfold seed ..
  fix trn1 val1 s1 trn2 val2 s2 h1 t1 h2 t2
  assume runs: "script_start R cuda1 dataset fs1 w1 = Inr (trn1, val1, s1)
          \<and> script_start R cuda2 dataset fs2 w2 = Inr (trn2, val2, s2)
          \<and> training_run T trn1 val1 s1 = Inr (h1, t1)
          \<and> training_run T trn2 val2 s2 = Inr (h2, t2)"
  then have b1: "baseline T R cuda1 dataset fs1 w1 = Inr (h1 ! 0)"
    using training_run_baseline [of T trn1 val1 s1 h1 t1] by (simp add: baseline_def)
  from runs have b2: "baseline T R cuda2 dataset fs2 w2 = Inr (h2 ! 0)"
    using training_run_baseline [of T trn2 val2 s2 h2 t2] by (simp add: baseline_def)
  from same b1 b2 show "h1 ! 0 = h2 ! 0" by simp
qed

theorem baseline_deterministic_witness:
  "baseline small_torch small_random False [batch_a, batch_a, batch_b] Map.empty 8
     = Inr \<lparr>val_loss = 3 / 2, val_acc = 1 / 2\<rparr>"
proof -
  have seed: "\<forall>w w'. manual_seed small_random 42 w = manual_seed small_random 42 w'"
    by (simp add: small_random_def)
  from baseline_deterministic [where R = small_random and T = small_torch
      and ?cuda1.0 = True and ?cuda2.0 = False and dataset = "[batch_a, batch_a, batch_b]"
      and ?fs1.0 = Map.empty and ?fs2.0 = Map.empty and ?w1.0 = 3 and ?w2.0 = 8, OF seed]
  have "baseline small_torch small_random True [batch_a, batch_a, batch_b] Map.empty 3
      = baseline small_torch small_random False [batch_a, batch_a, batch_b] Map.empty 8"
    by blast
  then show ?thesis using small_baseline by simp
qed

text \<open>
  C9. The metrics record of the source has the four keys, and three of its values are
  decimal literals. The text \<^verbatim>\<open>1.6940.\<close> of the fourth is not one: reading the record
  is a syntax error, and nothing is written to \<^verbatim>\<open>metrics.json\<close>.
\<close>

theorem metrics_literal_malformed:
  "\<not> number_literal ''1.6940.''
   \<and> number_literal ''0.4151'' \<and> number_literal ''1.6812'' \<and> number_literal ''0.4128''
   \<and> metrics = Inl SyntaxError
   \<and> dump_metrics fs = Inl SyntaxError"
proof -
  have a: "\<not> number_literal ''1.6940.''"
    by (simp add: number_literal_def digit_def)
  have b: "number_literal ''0.4151''" "number_literal ''1.6812''" "number_literal ''0.4128''"
    by (simp_all add: number_literal_def digit_def)
  have c: "metrics = Inl SyntaxError"
    using a by (simp add: metrics_def read_record_def metrics_source_def)
  have d: "dump_metrics fs = Inl SyntaxError"
    by (simp add: dump_metrics_def c)
  show ?thesis using a b c d by simp
qed

text \<open>
  C10. The wrapper reports the length of the loader it wraps. One iteration of it
  yields as many batches as the iteration of the wrapped loader from the same state, the
  batch at each index is the wrapped loader's batch at that index moved to the device,
  with the same tensors, all on the wrapper's device, and the loader's state advances as
  it does without the wrapper.
\<close>

theorem device_loader_stream:
  "DeviceDataLoader_len self = num_batches (dl self)
   \<and> length (fst (DeviceDataLoader_iter self w)) = length (fst (batches (dl self) w))
   \<and> (\<forall>i < length (fst (batches (dl self) w)).
        fst (DeviceDataLoader_iter self w) ! i
          = to_device (fst (batches (dl self) w) ! i) (device self)
        \<and> payloads (fst (DeviceDataLoader_iter self w) ! i)
          = payloads (fst (batches (dl self) w) ! i)
        \<and> set (devices (fst (DeviceDataLoader_iter self w) ! i)) \<subseteq> {device self})
   \<and> snd (DeviceDataLoader_iter self w) = snd (batches (dl self) w)"
proof -
  obtain bs w' where it: "batches (dl self) w = (bs, w')" by (cases "batches (dl self) w")
  have "DeviceDataLoader_iter self w = (map (\<lambda>b. to_device b (device self)) bs, w')"
    by (simp add: DeviceDataLoader_iter_def it)
  then show ?thesis
    by (simp add: DeviceDataLoader_len_def it to_device_moves set_replicate_conv_if)
qed

theorem device_loader_stream_witness:
  "fst (DeviceDataLoader_iter \<lparr>dl = small_val, device = CUDA\<rparr> ()) ! 1
     = PyList [Tensor CUDA (Floats [[1], [2], [3]]), Tensor CUDA (Longs [1, 1, 1])]
   \<and> DeviceDataLoader_len \<lparr>dl = small_val, device = CUDA\<rparr> = 2"
proof -
  have len: "(1::nat) < length (fst (batches small_val ()))"
    by (simp add: small_val_def)
  from device_loader_stream [of "\<lparr>dl = small_val, device = CUDA\<rparr>" "()"] len
  have "fst (DeviceDataLoader_iter \<lparr>dl = small_val, device = CUDA\<rparr> ()) ! 1
          = to_device (fst (batches small_val ()) ! 1) CUDA"
    and "DeviceDataLoader_len \<lparr>dl = small_val, device = CUDA\<rparr> = num_batches small_val"
    by simp_all
  then show ?thesis
    by (simp add: small_val_def batch_b_def)
qed

end
